theory Spec2Isabelle
  imports Main "HOL-Library.Sublist" "HOL-Library.AList"
begin

section \<open>Strings\<close>

text \<open>
  JavaScript strings are modelled as \<^typ>\<open>string\<close>. \<open>String.prototype.toLowerCase\<close> is
  modelled on the ASCII letters: \<open>A\<close> .. \<open>Z\<close> go to \<open>a\<close> .. \<open>z\<close>, every other character
  is kept. The program only compares the lowered answer with the ASCII words \<open>a\<close>, \<open>all\<close>,
  \<open>y\<close> and \<open>yes\<close>, and no character outside \<open>A\<close> .. \<open>Z\<close> is lowered by JavaScript to
  one of the letters of these words, so the comparisons come out as in JavaScript.
\<close>

definition toLowerChar :: "char \<Rightarrow> char" where
  "toLowerChar c =
     (case map_of (zip ''ABCDEFGHIJKLMNOPQRSTUVWXYZ'' ''abcdefghijklmnopqrstuvwxyz'') c of
        Some d \<Rightarrow> d
      | None \<Rightarrow> c)"

definition toLowerCase :: "string \<Rightarrow> string" where
  "toLowerCase s = map toLowerChar s"

section \<open>The interactive prompt: interpreting the answer\<close>

text \<open>
  \<open>promptOverwrite\<close> resolves to the string \<open>"all"\<close> or to a boolean. The callback of
  \<open>rl.question\<close> (index.js, lines 46 to 54) computes that value from the line typed.
\<close>

datatype response = RespAll | RespBool bool

definition promptOverwrite_answer :: "string \<Rightarrow> response" where
  "promptOverwrite_answer answer =
     (let lower = toLowerCase answer in
      if lower = ''a'' \<or> lower = ''all'' then RespAll
      else RespBool (lower = ''y'' \<or> lower = ''yes''))"

section \<open>Paths\<close>

text \<open>
  A path is the list of its components below the root, so \<open>/dest/sub/b.txt\<close> is
  \<open>[''dest'', ''sub'', ''b.txt'']\<close>. The functions of Node's \<open>path\<close> module are modelled on
  absolute, normalised paths: \<open>join\<close> appends and normalises (\<open>..\<close> removes a component,
  \<open>.\<close> and the empty component are dropped), \<open>relative\<close> climbs out of what \<open>from\<close> does not
  share with \<open>to\<close> and descends into the rest of \<open>to\<close>, \<open>dirname\<close> drops the last
  component.
\<close>

type_synonym path = "string list"

definition norm_step :: "path \<Rightarrow> string \<Rightarrow> path" where
  "norm_step p c =
     (if c = ''..'' then butlast p else if c = ''.'' \<or> c = '''' then p else p @ [c])"

definition join :: "path \<Rightarrow> path \<Rightarrow> path" where
  "join a b = foldl norm_step a b"

definition relative :: "path \<Rightarrow> path \<Rightarrow> path" where
  "relative from to =
     (let k = length (longest_common_prefix from to)
      in replicate (length from - k) ''..'' @ drop k to)"

definition dirname :: "path \<Rightarrow> path" where
  "dirname p = butlast p"

section \<open>Errors and the outcome of an awaited call\<close>

text \<open>
  A rejected promise (or a thrown exception) carries an error. An error of the file system
  names the system call, the error code and the path. An awaited call ends in one of three
  ways: it is fulfilled with a value, it is rejected with an error, or it never settles
  (\<open>Pending\<close>: the prompt waits for a line that never comes, the child never exits).
\<close>

datatype errno = ENOENT | EACCES | ENOTDIR | EISDIR | EEXIST | ENOSPC

datatype error =
    SysError string errno path
  | TypeError
  | SyntaxError
  | Error string

datatype 'a outcome = Done 'a | Thrown error | Pending

text \<open>
  \<open>await m k\<close> continues with \<open>k\<close> when \<open>m\<close> is fulfilled and lets a rejection pass;
  \<open>try_catch m handler\<close> runs the handler on a rejection of \<open>m\<close>.
\<close>

definition await ::
  "'a outcome \<times> 'w \<Rightarrow> ('a \<Rightarrow> 'w \<Rightarrow> 'b outcome \<times> 'w) \<Rightarrow> 'b outcome \<times> 'w" where
  "await m k =
     (case m of
        (Done x, w) \<Rightarrow> k x w
      | (Thrown e, w) \<Rightarrow> (Thrown e, w)
      | (Pending, w) \<Rightarrow> (Pending, w))"

definition try_catch ::
  "'a outcome \<times> 'w \<Rightarrow> (error \<Rightarrow> 'w \<Rightarrow> 'a outcome \<times> 'w) \<Rightarrow> 'a outcome \<times> 'w" where
  "try_catch m handler = (case m of (Thrown e, w) \<Rightarrow> handler e w | r \<Rightarrow> r)"

section \<open>The template tree\<close>

text \<open>
  The templates are read, never written: what \<open>readdir\<close>, \<open>stat\<close> and the reading half of
  \<open>copyFile\<close> see during a walk is a finite tree. A directory lists its entries in the
  order the file system yields them. \<open>Dangling\<close> is a symbolic link to nothing (listed by
  \<open>readdir\<close>, \<open>stat\<close> fails on it), \<open>Sealed\<close> a directory that may not be listed. The
  destination lives in the mutable \<open>world\<close> below; the two are taken to be disjoint, as they
  are for the installed tool (its own \<open>templates\<close> directory against the working directory).
\<close>

datatype node = File string | Dir "(string \<times> node) list" | Dangling | Sealed

fun lookup :: "node \<Rightarrow> path \<Rightarrow> node option" where
  "lookup n [] = Some n"
| "lookup (Dir es) (c # p) = (case map_of es c of None \<Rightarrow> None | Some m \<Rightarrow> lookup m p)"
| "lookup _ (c # p) = None"

text \<open>\<open>readdir\<close> never lists \<open>.\<close> or \<open>..\<close>, and a name has no separator in it.\<close>

definition valid_name :: "string \<Rightarrow> bool" where
  "valid_name n \<longleftrightarrow> n \<noteq> '''' \<and> n \<noteq> ''.'' \<and> n \<noteq> ''..'' \<and> CHR ''/'' \<notin> set n"

definition readdir :: "node \<Rightarrow> path \<Rightarrow> error + string list" where
  "readdir t p =
     (case lookup t p of
        None \<Rightarrow> Inl (SysError ''scandir'' ENOENT p)
      | Some (Dir es) \<Rightarrow> Inr (filter valid_name (map fst es))
      | Some Sealed \<Rightarrow> Inl (SysError ''scandir'' EACCES p)
      | Some _ \<Rightarrow> Inl (SysError ''scandir'' ENOTDIR p))"

fun isDirectory :: "node \<Rightarrow> bool" where
  "isDirectory (Dir _) = True"
| "isDirectory Sealed = True"
| "isDirectory _ = False"

definition stat :: "node \<Rightarrow> path \<Rightarrow> error + bool" where
  "stat t p =
     (case lookup t p of
        None \<Rightarrow> Inl (SysError ''stat'' ENOENT p)
      | Some Dangling \<Rightarrow> Inl (SysError ''stat'' ENOENT p)
      | Some n \<Rightarrow> Inr (isDirectory n))"

section \<open>The world the tool runs in\<close>

text \<open>
  Everything the tool can change or observe outside the templates: the files of the target
  side, the lines waiting on standard input, what the spawned child will emit, and the
  trace of the calls made so far (each call is appended with its result, so that "how
  often" and "in which order" can be read off). \<open>noaccess w p\<close> says that no call may touch
  \<open>p\<close> (a directory on the way to it may not be searched: \<open>EACCES\<close>), \<open>readonly w p\<close> that
  \<open>p\<close> may be seen and read but not created or written. \<open>space w p\<close> is what the disk can
  still take of a file written at \<open>p\<close>: \<open>None\<close> when it takes all of it, \<open>Some n\<close> when it is
  full after \<open>n\<close> characters.
\<close>

datatype fnode = RegFile string | Directory

datatype child_event = ChildError error | ChildExit "int option"

datatype event =
    Access path bool
  | Prompt path "response option"
  | Mkdir path bool
  | CopyFile path path bool
  | ReadFile path bool
  | WriteFile path string bool
  | ConsoleLog string
  | Spawn string "string list"

record world =
  fs :: "path \<Rightarrow> fnode option"
  noaccess :: "path \<Rightarrow> bool"
  readonly :: "path \<Rightarrow> bool"
  space :: "path \<Rightarrow> nat option"
  stdin :: "string list"
  child :: "child_event list"
  trace :: "event list"

definition log :: "event \<Rightarrow> world \<Rightarrow> world" where
  "log e w = w\<lparr>trace := trace w @ [e]\<rparr>"

text \<open>\<open>fs.access(p)\<close>: fulfilled when \<open>p\<close> can be seen, rejected otherwise.\<close>

definition access :: "path \<Rightarrow> world \<Rightarrow> unit outcome \<times> world" where
  "access p w =
     (if noaccess w p then (Thrown (SysError ''access'' EACCES p), log (Access p False) w)
      else if fs w p = None then (Thrown (SysError ''access'' ENOENT p), log (Access p False) w)
      else (Done (), log (Access p True) w))"

text \<open>A path is visible when it is there and may be reached.\<close>

definition visible :: "world \<Rightarrow> path \<Rightarrow> bool" where
  "visible w p \<longleftrightarrow> \<not> noaccess w p \<and> fs w p \<noteq> None"

fun is_file :: "fnode option \<Rightarrow> bool" where
  "is_file (Some (RegFile c)) = True"
| "is_file _ = False"

text \<open>
  \<open>fs.mkdir(d, {recursive: true})\<close>: creates every missing directory on the way to \<open>d\<close>
  and \<open>d\<close> itself; nothing happens to those that exist. It is rejected when one of them may
  not be touched or created, or is a regular file.
\<close>

definition mkdir :: "path \<Rightarrow> world \<Rightarrow> unit outcome \<times> world" where
  "mkdir d w =
     (if \<exists>q \<in> set (prefixes d). noaccess w q \<or> (fs w q = None \<and> readonly w q)
      then (Thrown (SysError ''mkdir'' EACCES d), log (Mkdir d False) w)
      else if \<exists>q \<in> set (prefixes d). is_file (fs w q)
      then (Thrown (SysError ''mkdir'' (if is_file (fs w d) then EEXIST else ENOTDIR) d),
            log (Mkdir d False) w)
      else (Done (),
            log (Mkdir d True)
              (w\<lparr>fs := (\<lambda>q. if q \<in> set (prefixes d) \<and> fs w q = None then Some Directory
                             else fs w q)\<rparr>)))"

text \<open>
  What is left of a file that is opened for writing and written: all of it when the disk
  takes it, and otherwise the part that the disk took, with the write rejected.
\<close>

definition written :: "world \<Rightarrow> path \<Rightarrow> string \<Rightarrow> string option" where
  "written w p content =
     (case space w p of
        None \<Rightarrow> None
      | Some n \<Rightarrow> if length content \<le> n then None else Some (take n content))"

text \<open>
  \<open>fs.copyFile(srcPath, destPath)\<close>: the content of the template file replaces the
  destination's, or creates it. A copy that fails after the destination was opened leaves
  a part of the content there.
\<close>

definition copyFile :: "node \<Rightarrow> path \<Rightarrow> path \<Rightarrow> world \<Rightarrow> unit outcome \<times> world" where
  "copyFile t srcPath destPath w =
     (case lookup t srcPath of
        Some (File c) \<Rightarrow>
          if noaccess w destPath \<or> readonly w destPath
          then (Thrown (SysError ''copyfile'' EACCES destPath),
                log (CopyFile srcPath destPath False) w)
          else if fs w destPath = Some Directory
          then (Thrown (SysError ''copyfile'' EISDIR destPath),
                log (CopyFile srcPath destPath False) w)
          else if dirname destPath \<noteq> [] \<and> fs w (dirname destPath) \<noteq> Some Directory
          then (Thrown (SysError ''copyfile'' ENOENT destPath),
                log (CopyFile srcPath destPath False) w)
          else (case written w destPath c of
                  None \<Rightarrow>
                    (Done (),
                     log (CopyFile srcPath destPath True)
                       (w\<lparr>fs := (fs w)(destPath \<mapsto> RegFile c)\<rparr>))
                | Some part \<Rightarrow>
                    (Thrown (SysError ''copyfile'' ENOSPC destPath),
                     log (CopyFile srcPath destPath False)
                       (w\<lparr>fs := (fs w)(destPath \<mapsto> RegFile part)\<rparr>)))
      | Some (Dir es) \<Rightarrow>
          (Thrown (SysError ''copyfile'' EISDIR srcPath), log (CopyFile srcPath destPath False) w)
      | Some Sealed \<Rightarrow>
          (Thrown (SysError ''copyfile'' EISDIR srcPath), log (CopyFile srcPath destPath False) w)
      | _ \<Rightarrow>
          (Thrown (SysError ''copyfile'' ENOENT srcPath), log (CopyFile srcPath destPath False) w))"

text \<open>
  \<open>fs.readFile(p, "utf8")\<close> and \<open>fs.writeFile(p, text)\<close>. The write opens the file
  with flag \<open>w\<close>, which empties it, and then writes: a write that is rejected at the open
  leaves the file as it was, one that is rejected later leaves a part of the text.
\<close>

definition readFile :: "path \<Rightarrow> world \<Rightarrow> string outcome \<times> world" where
  "readFile p w =
     (if noaccess w p then (Thrown (SysError ''open'' EACCES p), log (ReadFile p False) w)
      else case fs w p of
        None \<Rightarrow> (Thrown (SysError ''open'' ENOENT p), log (ReadFile p False) w)
      | Some Directory \<Rightarrow> (Thrown (SysError ''read'' EISDIR p), log (ReadFile p False) w)
      | Some (RegFile c) \<Rightarrow> (Done c, log (ReadFile p True) w))"

definition writeFile :: "path \<Rightarrow> string \<Rightarrow> world \<Rightarrow> unit outcome \<times> world" where
  "writeFile p content w =
     (if noaccess w p \<or> readonly w p
      then (Thrown (SysError ''open'' EACCES p), log (WriteFile p content False) w)
      else if fs w p = Some Directory
      then (Thrown (SysError ''open'' EISDIR p), log (WriteFile p content False) w)
      else if dirname p \<noteq> [] \<and> fs w (dirname p) \<noteq> Some Directory
      then (Thrown (SysError ''open'' ENOENT p), log (WriteFile p content False) w)
      else (case written w p content of
              None \<Rightarrow>
                (Done (),
                 log (WriteFile p content True) (w\<lparr>fs := (fs w)(p \<mapsto> RegFile content)\<rparr>))
            | Some part \<Rightarrow>
                (Thrown (SysError ''write'' ENOSPC p),
                 log (WriteFile p content False) (w\<lparr>fs := (fs w)(p \<mapsto> RegFile part)\<rparr>))))"

section \<open>The interactive prompt\<close>

text \<open>
  \<open>promptOverwrite\<close> (index.js, lines 37 to 57) asks its question and resolves with the
  interpretation of the next line of standard input. Its promise has no \<open>reject\<close>: when no
  line comes, it never settles.
\<close>

definition promptOverwrite :: "path \<Rightarrow> world \<Rightarrow> response outcome \<times> world" where
  "promptOverwrite filePath w =
     (case stdin w of
        [] \<Rightarrow> (Pending, log (Prompt filePath None) w)
      | answer # rest \<Rightarrow>
          (let r = promptOverwrite_answer answer
           in (Done r, log (Prompt filePath (Some r)) (w\<lparr>stdin := rest\<rparr>))))"

section \<open>The directory copier\<close>

text \<open>
  \<open>for (const entry of entries)\<close> with one variable carried from one round to the next
  (here \<open>overwriteAll\<close>): the loop stops at the first round that is rejected or never
  settles.
\<close>

fun forEach ::
  "'a list \<Rightarrow> ('a \<Rightarrow> 's \<Rightarrow> world \<Rightarrow> 's outcome \<times> world) \<Rightarrow> 's \<Rightarrow> world \<Rightarrow> 's outcome \<times> world"
where
  "forEach [] body s w = (Done s, w)"
| "forEach (x # xs) body s w =
     (case body x s w of
        (Done s', w') \<Rightarrow> forEach xs body s' w'
      | (Thrown e, w') \<Rightarrow> (Thrown e, w')
      | (Pending, w') \<Rightarrow> (Pending, w'))"

lemma forEach_cong [fundef_cong]:
  "xs = ys \<Longrightarrow> (\<And>x s w. x \<in> set ys \<Longrightarrow> f x s w = g x s w) \<Longrightarrow> s = s' \<Longrightarrow> w = w'
     \<Longrightarrow> forEach xs f s w = forEach ys g s' w'"
proof (induction ys arbitrary: xs s s' w w')
  case Nil
  then show ?case by simp
next
  case (Cons y ys)
  then show ?case by (auto split: prod.splits outcome.splits)
qed

text \<open>
  The branch of the loop body for an entry that is not a directory (index.js, lines 74 to
  97). The \<open>try\<close> block holds the existence check and the prompt; its \<open>catch\<close> is empty, so
  after any rejection inside it \<open>shouldCopy\<close> and \<open>overwriteAll\<close> are what they were.
\<close>

definition copyFileEntry ::
  "node \<Rightarrow> path \<Rightarrow> path \<Rightarrow> path \<Rightarrow> bool \<Rightarrow> world \<Rightarrow> bool outcome \<times> world" where
  "copyFileEntry t srcPath dest baseSrc overwriteAll w =
     (let relativePath = relative baseSrc srcPath;
          destPath = join dest relativePath;
          destDir = dirname destPath
      in await
           (try_catch
              (await (access destPath w) (\<lambda>_ w.
                 if \<not> overwriteAll then
                   await (promptOverwrite relativePath w) (\<lambda>response w.
                     case response of
                       RespAll \<Rightarrow> (Done (True, True), w)
                     | RespBool b \<Rightarrow> (Done (b, overwriteAll), w))
                 else (Done (True, overwriteAll), w)))
              (\<lambda>error w. (Done (True, overwriteAll), w)))
           (\<lambda>(shouldCopy, overwriteAll) w.
              if shouldCopy then
                await (mkdir destDir w) (\<lambda>_ w.
                await (copyFile t srcPath destPath w) (\<lambda>_ w.
                  (Done overwriteAll, w)))
              else (Done overwriteAll, w)))"

text \<open>
  Every directory that the walk enters is a proper part of the one it is in; this is why
  the walk ends.
\<close>

lemma lookup_append:
  "lookup t (p @ q) = (case lookup t p of None \<Rightarrow> None | Some n \<Rightarrow> lookup n q)"
proof (induction p arbitrary: t)
  case Nil
  then show ?case by simp
next
  case (Cons c p)
  then show ?case by (cases t) (auto split: option.splits)
qed

lemma map_of_size_less: "map_of es c = Some m \<Longrightarrow> size m < size (Dir es)"
  by (induction es) (auto split: if_splits)

lemma join_valid_name: "valid_name e \<Longrightarrow> join src [e] = src @ [e]"
  by (simp add: join_def norm_step_def valid_name_def)

lemma child_directory_smaller:
  assumes "readdir t src = Inr entries" and "entry \<in> set entries"
    and "stat t (join src [entry]) = Inr isDir"
  shows "\<exists>es m. lookup t src = Some (Dir es) \<and> lookup t (join src [entry]) = Some m
           \<and> size m < size (Dir es)"
proof -
  from assms(1) obtain es where es: "lookup t src = Some (Dir es)"
      and entries: "entries = filter valid_name (map fst es)"
    by (auto simp: readdir_def split: option.splits node.splits)
  from assms(2) entries have "valid_name entry" by simp
  then have j: "join src [entry] = src @ [entry]" by (rule join_valid_name)
  from assms(3) obtain m where m: "lookup t (src @ [entry]) = Some m"
    unfolding j by (auto simp: stat_def split: option.splits)
  with es have "map_of es entry = Some m"
    by (simp add: lookup_append split: option.splits)
  then have "size m < size (Dir es)" by (rule map_of_size_less)
  with es m j show ?thesis by simp
qed

text \<open>\<open>copyDirectory\<close> (index.js, lines 59 to 102).\<close>

function copyDirectory ::
  "node \<Rightarrow> path \<Rightarrow> path \<Rightarrow> path \<Rightarrow> bool \<Rightarrow> world \<Rightarrow> bool outcome \<times> world" where
  "copyDirectory t src dest baseSrc overwriteAll w =
     (case readdir t src of
        Inl e \<Rightarrow> (Thrown e, w)
      | Inr entries \<Rightarrow>
          forEach entries
            (\<lambda>entry overwriteAll w.
               let srcPath = join src [entry] in
               case stat t srcPath of
                 Inl e \<Rightarrow> (Thrown e, w)
               | Inr isDir \<Rightarrow>
                   if isDir then copyDirectory t srcPath dest baseSrc overwriteAll w
                   else copyFileEntry t srcPath dest baseSrc overwriteAll w)
            overwriteAll w)"
  by pat_completeness auto

termination
proof (relation "measure (\<lambda>(t, src, dest, baseSrc, overwriteAll, w).
          case lookup t src of Some n \<Rightarrow> size n | None \<Rightarrow> 0)", goal_cases)
  case 1
  then show ?case by simp
next
  case (2 t src dest baseSrc overwriteAll w entries entry s wa srcPath isDir)
  then show ?case
    using child_directory_smaller[of t src entries entry isDir] by auto
qed

subsection \<open>The files of the tree, in the order of the walk\<close>

text \<open>
  What a walk from \<open>src\<close> meets, read off the template tree alone: the files below \<open>src\<close>
  in the order of the listings, directories before what follows them. A listing or a
  \<open>stat\<close> that fails is a step of its own; no walk gets past it.
\<close>

datatype step = Visit path | Fail error

function plan :: "node \<Rightarrow> path \<Rightarrow> step list" where
  "plan t src =
     (case readdir t src of
        Inl e \<Rightarrow> [Fail e]
      | Inr entries \<Rightarrow>
          concat (map (\<lambda>entry.
                    let srcPath = join src [entry] in
                    case stat t srcPath of
                      Inl e \<Rightarrow> [Fail e]
                    | Inr isDir \<Rightarrow> if isDir then plan t srcPath else [Visit srcPath])
                  entries))"
  by pat_completeness auto

termination
proof (relation "measure (\<lambda>(t, src). case lookup t src of Some n \<Rightarrow> size n | None \<Rightarrow> 0)",
    goal_cases)
  case 1
  then show ?case by simp
next
  case (2 t src entries entry srcPath isDir)
  then show ?case
    using child_directory_smaller[of t src entries entry isDir] by auto
qed


section \<open>The package manager detector\<close>

text \<open>
  \<open>detectPackageManager\<close> (index.js, lines 104 to 120): two \<open>try\<close> blocks, each returning
  from inside when its \<open>access\<close> is fulfilled, each with an empty \<open>catch\<close>.
\<close>

definition detectPackageManager :: "path \<Rightarrow> world \<Rightarrow> string outcome \<times> world" where
  "detectPackageManager targetDir w =
     (case access (join targetDir [''pnpm-lock.yaml'']) w of
        (Done _, w) \<Rightarrow> (Done ''pnpm'', w)
      | (Pending, w) \<Rightarrow> (Pending, w)
      | (Thrown error, w) \<Rightarrow>
          (case access (join targetDir [''yarn.lock'']) w of
             (Done _, w) \<Rightarrow> (Done ''yarn'', w)
           | (Pending, w) \<Rightarrow> (Pending, w)
           | (Thrown error, w) \<Rightarrow> (Done ''npm'', w)))"

text \<open>How often a path was checked for existence in a trace.\<close>

fun access_count :: "path \<Rightarrow> event list \<Rightarrow> nat" where
  "access_count p [] = 0"
| "access_count p (Access q ok # evs) = (if q = p then 1 else 0) + access_count p evs"
| "access_count p (e # evs) = access_count p evs"

section \<open>The dependency installer\<close>

text \<open>Decimal numerals, as a template literal prints a number; \<open>null\<close> prints as \<open>null\<close>.\<close>

fun digits :: "nat \<Rightarrow> string" where
  "digits n = (if n < 10 then [char_of (48 + n)] else digits (n div 10) @ [char_of (48 + n mod 10)])"

definition show_int :: "int \<Rightarrow> string" where
  "show_int i = (if i < 0 then ''-'' @ digits (nat (- i)) else digits (nat i))"

fun show_code :: "int option \<Rightarrow> string" where
  "show_code None = ''null''"
| "show_code (Some i) = show_int i"

text \<open>The table \<open>commands\<close> of \<open>installDependency\<close>, with its keys in the source's order.\<close>

definition commands :: "string \<Rightarrow> (string \<times> string list) list" where
  "commands packageName =
     [(''npm'', [''npm'', ''install'', ''--save-dev'', packageName]),
      (''yarn'', [''yarn'', ''add'', ''--dev'', packageName]),
      (''pnpm'', [''pnpm'', ''add'', ''--save-dev'', packageName])]"

text \<open>
  The two listeners on the child (index.js, lines 135 to 142) and the promise they settle.
  A promise settles once: an event that arrives after it has settled changes nothing.
\<close>

fun deliver :: "unit outcome \<Rightarrow> child_event \<Rightarrow> unit outcome" where
  "deliver Pending (ChildError e) = Thrown e"
| "deliver Pending (ChildExit code) =
     (if code = Some 0 then Done ()
      else Thrown (Error (''Installation failed with code '' @ show_code code)))"
| "deliver settled _ = settled"

text \<open>
  \<open>installDependency\<close> (index.js, lines 122 to 144). A package manager that is not a key
  of the table makes the destructuring of \<open>undefined\<close> throw before anything is spawned.
\<close>

definition installDependency :: "string \<Rightarrow> string \<Rightarrow> world \<Rightarrow> unit outcome \<times> world" where
  "installDependency packageManager packageName w =
     (case map_of (commands packageName) packageManager of
        None \<Rightarrow> (Thrown TypeError, w)
      | Some command \<Rightarrow>
          (let w = log (ConsoleLog (''Installing '' @ packageName @ '' with '' @ packageManager
                                     @ ''...'')) w
           in case command of
                [] \<Rightarrow> (Thrown TypeError, w)
              | cmd # args \<Rightarrow>
                  (let w = log (Spawn cmd args) w
                   in (foldl deliver Pending (child w), w))))"

section \<open>JSON values\<close>

text \<open>
  The value \<open>JSON.parse\<close> returns: \<open>null\<close>, a boolean, a number, a string, an array or an
  object. An object is the list of its own properties in the order JavaScript enumerates
  them, an array its elements and, beside them, the named properties that were stored on
  it (none after parsing; \<open>JSON.stringify\<close> never prints them). A number is kept as the text
  that JavaScript prints for it, so zero of either sign is \<open>0\<close>. \<open>JSON.parse\<close> itself is not
  modelled: the patcher takes it as a parameter.
\<close>

datatype json =
    JNull
  | JBool bool
  | JNum string
  | JStr string
  | JArr "json list" "(string \<times> json) list"
  | JObj "(string \<times> json) list"

text \<open>The value of a property read is a \<open>json option\<close>: \<open>None\<close> is \<open>undefined\<close>.\<close>

fun truthy :: "json option \<Rightarrow> bool" where
  "truthy None = False"
| "truthy (Some JNull) = False"
| "truthy (Some (JBool b)) = b"
| "truthy (Some (JNum n)) = (n \<noteq> ''0'' \<and> n \<noteq> ''NaN'')"
| "truthy (Some (JStr s)) = (s \<noteq> '''')"
| "truthy (Some (JArr xs ps)) = True"
| "truthy (Some (JObj ps)) = True"

text \<open>
  Reading and writing a property, for the three names the patcher uses (\<open>scripts\<close>,
  \<open>format\<close>, \<open>format:check\<close>; none is an array index or a property of a built-in
  prototype). Reading from \<open>null\<close> throws; a primitive has none of these properties. The
  source is a module, so it runs in strict mode, where storing a property on a primitive
  throws. Storing on an object replaces the value of a property in place and puts a new
  property last.
\<close>

fun getProp :: "json \<Rightarrow> string \<Rightarrow> error + json option" where
  "getProp JNull k = Inl TypeError"
| "getProp (JObj ps) k = Inr (map_of ps k)"
| "getProp (JArr xs ps) k = Inr (map_of ps k)"
| "getProp _ k = Inr None"

fun setProp :: "json \<Rightarrow> string \<Rightarrow> json \<Rightarrow> error + json" where
  "setProp (JObj ps) k v = Inr (JObj (AList.update k v ps))"
| "setProp (JArr xs ps) k v = Inr (JArr xs (AList.update k v ps))"
| "setProp _ k v = Inl TypeError"

text \<open>
  \<open>obj.a.b = v\<close>: the value of \<open>obj.a\<close> is an object shared with \<open>obj\<close>, so the store shows
  in \<open>obj\<close>, where \<open>a\<close> keeps its place.
\<close>

definition setNested :: "json \<Rightarrow> string \<Rightarrow> string \<Rightarrow> json \<Rightarrow> error + json" where
  "setNested obj a b v =
     (case getProp obj a of
        Inl e \<Rightarrow> Inl e
      | Inr None \<Rightarrow> Inl TypeError
      | Inr (Some inner) \<Rightarrow>
          (case setProp inner b v of
             Inl e \<Rightarrow> Inl e
           | Inr inner' \<Rightarrow> setProp obj a inner'))"

subsection \<open>\<open>JSON.stringify(value, null, 2)\<close>\<close>

definition newline :: string where
  "newline = [CHR 0x0A]"

definition hex_digit :: "nat \<Rightarrow> char" where
  "hex_digit n = (if n < 10 then char_of (48 + n) else char_of (87 + n))"

text \<open>A string in quotes, with the escapes of \<open>JSON.stringify\<close>.\<close>

definition quote_char :: "char \<Rightarrow> string" where
  "quote_char c =
     (if c = CHR 0x22 then [CHR 0x5C, CHR 0x22]
      else if c = CHR 0x5C then [CHR 0x5C, CHR 0x5C]
      else if c = CHR 0x08 then [CHR 0x5C, CHR ''b'']
      else if c = CHR 0x09 then [CHR 0x5C, CHR ''t'']
      else if c = CHR 0x0A then [CHR 0x5C, CHR ''n'']
      else if c = CHR 0x0C then [CHR 0x5C, CHR ''f'']
      else if c = CHR 0x0D then [CHR 0x5C, CHR ''r'']
      else if (of_char c :: nat) < 32
      then [CHR 0x5C, CHR ''u'', CHR ''0'', CHR ''0'',
            hex_digit (of_char c div 16), hex_digit (of_char c mod 16)]
      else [c])"

definition quote :: "string \<Rightarrow> string" where
  "quote s = [CHR 0x22] @ concat (map quote_char s) @ [CHR 0x22]"

fun join_with :: "string \<Rightarrow> string list \<Rightarrow> string" where
  "join_with sep [] = []"
| "join_with sep [x] = x"
| "join_with sep (x # y # ys) = x @ sep @ join_with sep (y # ys)"

text \<open>
  \<open>stringify indent v\<close> is the text of \<open>v\<close> when the surrounding text is indented by
  \<open>indent\<close>; every level adds the gap of two spaces.
\<close>

fun stringify :: "string \<Rightarrow> json \<Rightarrow> string" where
  "stringify indent JNull = ''null''"
| "stringify indent (JBool b) = (if b then ''true'' else ''false'')"
| "stringify indent (JNum n) =
     (if n = ''Infinity'' \<or> n = ''-Infinity'' \<or> n = ''NaN'' then ''null'' else n)"
| "stringify indent (JStr s) = quote s"
| "stringify indent (JArr xs ps) =
     (if xs = [] then ''[]''
      else ''['' @ newline @ (indent @ ''  '')
           @ join_with ('','' @ newline @ (indent @ ''  ''))
               (map (stringify (indent @ ''  '')) xs)
           @ newline @ indent @ '']'')"
| "stringify indent (JObj ps) =
     (if ps = [] then ''{}''
      else ''{'' @ newline @ (indent @ ''  '')
           @ join_with ('','' @ newline @ (indent @ ''  ''))
               (map (\<lambda>p. quote (fst p) @ '': '' @ stringify (indent @ ''  '') (snd p)) ps)
           @ newline @ indent @ ''}'')"

definition JSON_stringify :: "json \<Rightarrow> string" where
  "JSON_stringify v = stringify '''' v"

section \<open>The manifest patcher\<close>

text \<open>
  The statements between the parse and the write (index.js, lines 153 to 158): make sure
  there is a \<open>scripts\<close> object, then store the two scripts in it.
\<close>

definition addPrettierScripts :: "json \<Rightarrow> error + json" where
  "addPrettierScripts packageJson =
     (case getProp packageJson ''scripts'' of
        Inl e \<Rightarrow> Inl e
      | Inr scripts \<Rightarrow>
          (case (if \<not> truthy scripts then setProp packageJson ''scripts'' (JObj [])
                 else Inr packageJson) of
             Inl e \<Rightarrow> Inl e
           | Inr packageJson \<Rightarrow>
               (case setNested packageJson ''scripts'' ''format'' (JStr ''prettier --write .'') of
                  Inl e \<Rightarrow> Inl e
                | Inr packageJson \<Rightarrow>
                    setNested packageJson ''scripts'' ''format:check''
                      (JStr ''prettier --check .''))))"

text \<open>
  \<open>updatePackageJson\<close> (index.js, lines 146 to 168). The whole body, the write included,
  is inside the \<open>try\<close> block.
\<close>

definition updatePackageJson ::
  "(string \<Rightarrow> error + json) \<Rightarrow> path \<Rightarrow> world \<Rightarrow> unit outcome \<times> world" where
  "updatePackageJson JSON_parse targetDir w =
     (let packageJsonPath = join targetDir [''package.json'']
      in try_catch
           (await (readFile packageJsonPath w) (\<lambda>content w.
              case JSON_parse content of
                Inl e \<Rightarrow> (Thrown e, w)
              | Inr packageJson \<Rightarrow>
                  (case addPrettierScripts packageJson of
                     Inl e \<Rightarrow> (Thrown e, w)
                   | Inr packageJson \<Rightarrow>
                       await (writeFile packageJsonPath (JSON_stringify packageJson @ newline) w)
                         (\<lambda>_ w.
                            (Done (),
                             log (ConsoleLog ''Added prettier scripts to package.json.'') w)))))
           (\<lambda>error w.
              (Done (), log (ConsoleLog ''No package.json found, skipping script addition.'') w)))"

subsection \<open>Reading a patched manifest\<close>

text \<open>
  The fields and the keys of an object, to state what the patcher keeps. A manifest is
  \<open>patchable\<close> when it is an object whose \<open>scripts\<close> is absent, falsy (\<open>null\<close>, \<open>false\<close>,
  zero, the empty string) or itself an object.
\<close>

fun object_field :: "json \<Rightarrow> string \<Rightarrow> json option" where
  "object_field (JObj ps) k = map_of ps k"
| "object_field _ k = None"

fun object_keys :: "json \<Rightarrow> string list" where
  "object_keys (JObj ps) = map fst ps"
| "object_keys _ = []"

fun patchable :: "json \<Rightarrow> bool" where
  "patchable (JObj ps) =
     (case map_of ps ''scripts'' of
        None \<Rightarrow> True
      | Some (JObj ss) \<Rightarrow> True
      | Some v \<Rightarrow> \<not> truthy (Some v))"
| "patchable _ = False"

text \<open>The properties of the \<open>scripts\<close> object that the patcher starts from.\<close>

definition old_scripts :: "(string \<times> json) list \<Rightarrow> (string \<times> json) list" where
  "old_scripts ps = (case map_of ps ''scripts'' of Some (JObj ss) \<Rightarrow> ss | _ \<Rightarrow> [])"

section \<open>The protocol of a walk\<close>

text \<open>
  What the copier may do next, read as an automaton over the trace. Between two files the
  automaton is \<open>Idle\<close> with the current \<open>overwriteAll\<close> flag. After an existence check it
  either owes a prompt (the file is there and the flag is off) or owes the copy; the copy
  is \<open>mkdir\<close> of the destination's directory, then \<open>copyFile\<close> to the destination.
  A call that is rejected or never settles halts the walk. Anything else is a \<open>Violation\<close>.
\<close>

datatype phase =
    Idle bool
  | AwaitPrompt path
  | MustCopy bool path
  | Copying bool path
  | Halted
  | Violation

fun mon :: "phase \<Rightarrow> event \<Rightarrow> phase" where
  "mon (Idle f) (Access p ok) = (if ok \<and> \<not> f then AwaitPrompt p else MustCopy f p)"
| "mon (AwaitPrompt p) (Prompt rel None) = Halted"
| "mon (AwaitPrompt p) (Prompt rel (Some RespAll)) = MustCopy True p"
| "mon (AwaitPrompt p) (Prompt rel (Some (RespBool b))) =
     (if b then MustCopy False p else Idle False)"
| "mon (MustCopy f p) (Mkdir d ok) =
     (if d = dirname p then (if ok then Copying f p else Halted) else Violation)"
| "mon (Copying f p) (CopyFile s p' ok) =
     (if p' = p then (if ok then Idle f else Halted) else Violation)"
| "mon _ _ = Violation"

definition run :: "phase \<Rightarrow> event list \<Rightarrow> phase" where
  "run s evs = foldl mon s evs"

text \<open>
  Where the automaton stands when a call of the copier is over: \<open>Idle\<close> with the returned
  flag when the call is fulfilled, halted or idle otherwise.
\<close>

fun settled :: "bool outcome \<Rightarrow> phase \<Rightarrow> bool" where
  "settled (Done f) s = (s = Idle f)"
| "settled _ s = (s = Halted \<or> s = Idle True \<or> s = Idle False)"

fun sticky :: "phase \<Rightarrow> bool" where
  "sticky (Idle f) = f"
| "sticky (MustCopy f p) = f"
| "sticky (Copying f p) = f"
| "sticky Halted = True"
| "sticky _ = False"

fun quiescent :: "phase \<Rightarrow> bool" where
  "quiescent (Idle f) = True"
| "quiescent Halted = True"
| "quiescent _ = False"

section \<open>Sample inputs\<close>

text \<open>
  A template tree \<open>/templates\<close> with \<open>a.txt\<close>, \<open>sub/b.txt\<close> and \<open>c.txt\<close>, and a target
  \<open>/dest\<close> that already has \<open>a.txt\<close> and \<open>sub/b.txt\<close>; the user will type \<open>All\<close>.
\<close>

definition sample_templates :: node where
  "sample_templates =
     Dir [(''templates'', Dir [(''a.txt'', File ''A1''),
                               (''sub'', Dir [(''b.txt'', File ''B1'')]),
                               (''c.txt'', File ''C1'')])]"

definition sample_world :: world where
  "sample_world =
     \<lparr>fs = [[''dest''] \<mapsto> Directory, [''dest'', ''a.txt''] \<mapsto> RegFile ''A0'',
            [''dest'', ''sub''] \<mapsto> Directory, [''dest'', ''sub'', ''b.txt''] \<mapsto> RegFile ''B0''],
      noaccess = (\<lambda>p. False), readonly = (\<lambda>p. False), space = (\<lambda>p. None),
      stdin = [''All''], child = [], trace = []\<rparr>"

text \<open>The same target for a user who types \<open>n\<close>, and one where \<open>a.txt\<close> may not be touched.\<close>

definition sample_world_no :: world where
  "sample_world_no = sample_world\<lparr>stdin := [''n'']\<rparr>"


text \<open>
  A project \<open>/proj\<close> with both lock files, one with \<open>pnpm-lock.yaml\<close> out of reach, and one
  whose manifest is \<open>{}\<close> and may not be written. The child of the first exits with code 1.
\<close>

definition sample_project :: world where
  "sample_project =
     \<lparr>fs = [[''proj''] \<mapsto> Directory, [''proj'', ''pnpm-lock.yaml''] \<mapsto> RegFile '''',
            [''proj'', ''yarn.lock''] \<mapsto> RegFile '''',
            [''proj'', ''package.json''] \<mapsto> RegFile ''{}''],
      noaccess = (\<lambda>p. False), readonly = (\<lambda>p. False), space = (\<lambda>p. None),
      stdin = [], child = [ChildExit (Some 1)], trace = []\<rparr>"

definition sample_project_denied :: world where
  "sample_project_denied =
     sample_project\<lparr>fs := [[''proj''] \<mapsto> Directory, [''proj'', ''pnpm-lock.yaml''] \<mapsto> RegFile ''''],
                    noaccess := (\<lambda>p. p = [''proj'', ''pnpm-lock.yaml''])\<rparr>"

definition sample_project_readonly :: world where
  "sample_project_readonly =
     sample_project\<lparr>readonly := (\<lambda>p. p = [''proj'', ''package.json''])\<rparr>"

text \<open>The same project on a disk that is full after five characters of the manifest.\<close>

definition sample_project_full :: world where
  "sample_project_full =
     sample_project\<lparr>space := (\<lambda>p. if p = [''proj'', ''package.json''] then Some 5 else None)\<rparr>"

text \<open>
  What \<open>JSON.parse\<close> returns on the six texts the examples use; on any other text this
  stand-in rejects, which says nothing about \<open>JSON.parse\<close> there. \<open>dq\<close> is the double quote.
\<close>

definition dq :: string where
  "dq = [CHR 0x22]"

definition sample_manifest :: string where
  "sample_manifest =
     ''{'' @ dq @ ''name'' @ dq @ '':'' @ dq @ ''p'' @ dq @ '','' @ dq @ ''scripts'' @ dq @ '':{''
       @ dq @ ''test'' @ dq @ '':'' @ dq @ ''x'' @ dq @ ''}}''"

definition sample_manifest_string_scripts :: string where
  "sample_manifest_string_scripts =
     ''{'' @ dq @ ''scripts'' @ dq @ '':'' @ dq @ ''build'' @ dq @ ''}''"

definition sample_manifest_overflow :: string where
  "sample_manifest_overflow = ''{'' @ dq @ ''x'' @ dq @ '':1e400}''"

definition sample_manifest_index_key :: string where
  "sample_manifest_index_key =
     ''{'' @ dq @ ''b'' @ dq @ '':1,'' @ dq @ ''2'' @ dq @ '':2}''"

definition sample_parse :: "string \<Rightarrow> error + json" where
  "sample_parse content =
     (if content = ''{}'' then Inr (JObj [])
      else if content = ''null'' then Inr JNull
      else if content = sample_manifest
      then Inr (JObj [(''name'', JStr ''p''), (''scripts'', JObj [(''test'', JStr ''x'')])])
      else if content = sample_manifest_string_scripts
      then Inr (JObj [(''scripts'', JStr ''build'')])
      else if content = sample_manifest_overflow
      then Inr (JObj [(''x'', JNum ''Infinity'')])
      else if content = sample_manifest_index_key
      then Inr (JObj [(''2'', JNum ''2''), (''b'', JNum ''1'')])
      else Inl SyntaxError)"

text \<open>The same project with five other manifests.\<close>

definition sample_project_manifest :: world where
  "sample_project_manifest =
     sample_project\<lparr>fs := (fs sample_project)([''proj'', ''package.json''] \<mapsto> RegFile sample_manifest)\<rparr>"

definition sample_project_null :: world where
  "sample_project_null =
     sample_project\<lparr>fs := (fs sample_project)([''proj'', ''package.json''] \<mapsto> RegFile ''null'')\<rparr>"

definition sample_project_string_scripts :: world where
  "sample_project_string_scripts =
     sample_project\<lparr>fs := (fs sample_project)([''proj'', ''package.json'']
        \<mapsto> RegFile sample_manifest_string_scripts)\<rparr>"

definition sample_project_overflow :: world where
  "sample_project_overflow =
     sample_project\<lparr>fs := (fs sample_project)([''proj'', ''package.json'']
        \<mapsto> RegFile sample_manifest_overflow)\<rparr>"

definition sample_project_index_key :: world where
  "sample_project_index_key =
     sample_project\<lparr>fs := (fs sample_project)([''proj'', ''package.json'']
        \<mapsto> RegFile sample_manifest_index_key)\<rparr>"

section \<open>The answers of the prompt\<close>

lemma toLowerChar_a: "toLowerChar c = CHR ''a'' \<longleftrightarrow> c = CHR ''a'' \<or> c = CHR ''A''"
  by (simp add: toLowerChar_def)

lemma toLowerChar_l: "toLowerChar c = CHR ''l'' \<longleftrightarrow> c = CHR ''l'' \<or> c = CHR ''L''"
  by (simp add: toLowerChar_def)

lemma toLowerChar_y: "toLowerChar c = CHR ''y'' \<longleftrightarrow> c = CHR ''y'' \<or> c = CHR ''Y''"
  by (simp add: toLowerChar_def)

lemma toLowerChar_e: "toLowerChar c = CHR ''e'' \<longleftrightarrow> c = CHR ''e'' \<or> c = CHR ''E''"
  by (simp add: toLowerChar_def)

lemma toLowerChar_s: "toLowerChar c = CHR ''s'' \<longleftrightarrow> c = CHR ''s'' \<or> c = CHR ''S''"
  by (simp add: toLowerChar_def)

lemma map_eq_single: "map f s = [x] \<longleftrightarrow> (\<exists>a. s = [a] \<and> f a = x)"
  by (cases s) auto

lemma map_eq_triple:
  "map f s = [x, y, z] \<longleftrightarrow> (\<exists>a b c. s = [a, b, c] \<and> f a = x \<and> f b = y \<and> f c = z)"
proof (cases s)
  case Nil
  then show ?thesis by simp
next
  case s: (Cons a s1)
  show ?thesis
  proof (cases s1)
    case Nil
    with s show ?thesis by simp
  next
    case s1: (Cons b s2)
    show ?thesis
    proof (cases s2)
      case Nil
      with s s1 show ?thesis by simp
    next
      case (Cons c s3)
      with s s1 show ?thesis by (cases s3) auto
    qed
  qed
qed

lemma toLowerCase_a: "toLowerCase s = ''a'' \<longleftrightarrow> s \<in> {''a'', ''A''}"
  unfolding toLowerCase_def map_eq_single toLowerChar_a by auto

lemma toLowerCase_y: "toLowerCase s = ''y'' \<longleftrightarrow> s \<in> {''y'', ''Y''}"
  unfolding toLowerCase_def map_eq_single toLowerChar_y by auto

lemma toLowerCase_all:
  "toLowerCase s = ''all'' \<longleftrightarrow>
     s \<in> {''all'', ''alL'', ''aLl'', ''aLL'', ''All'', ''AlL'', ''ALl'', ''ALL''}"
  unfolding toLowerCase_def map_eq_triple toLowerChar_a toLowerChar_l by auto

lemma toLowerCase_yes:
  "toLowerCase s = ''yes'' \<longleftrightarrow>
     s \<in> {''yes'', ''yeS'', ''yEs'', ''yES'', ''Yes'', ''YeS'', ''YEs'', ''YES''}"
  unfolding toLowerCase_def map_eq_triple toLowerChar_y toLowerChar_e toLowerChar_s by auto

text \<open>
  Claim C3. The answer mapping is total and case-insensitive: the two spellings of \<open>a\<close>
  and the eight spellings of \<open>all\<close> give \<open>"all"\<close>, the two spellings of \<open>y\<close> and the eight
  spellings of \<open>yes\<close> give \<open>true\<close>, and every other line, the empty one included, gives
  \<open>false\<close>.
\<close>

theorem promptOverwrite_answer_total_caseless:
  "promptOverwrite_answer s =
     (if s \<in> {''a'', ''A'', ''all'', ''alL'', ''aLl'', ''aLL'', ''All'', ''AlL'', ''ALl'', ''ALL''}
      then RespAll
      else if s \<in> {''y'', ''Y'', ''yes'', ''yeS'', ''yEs'', ''yES'', ''Yes'', ''YeS'', ''YEs'', ''YES''}
      then RespBool True
      else RespBool False)
   \<and> promptOverwrite_answer '''' = RespBool False"
proof -
  have all: "(toLowerCase s = ''a'' \<or> toLowerCase s = ''all'') \<longleftrightarrow>
      s \<in> {''a'', ''A'', ''all'', ''alL'', ''aLl'', ''aLL'', ''All'', ''AlL'', ''ALl'', ''ALL''}"
    unfolding toLowerCase_a toLowerCase_all by blast
  have yes: "(toLowerCase s = ''y'' \<or> toLowerCase s = ''yes'') \<longleftrightarrow>
      s \<in> {''y'', ''Y'', ''yes'', ''yeS'', ''yEs'', ''yES'', ''Yes'', ''YeS'', ''YEs'', ''YES''}"
    unfolding toLowerCase_y toLowerCase_yes by blast
  have empty: "promptOverwrite_answer '''' = RespBool False"
    by (simp add: promptOverwrite_answer_def toLowerCase_def)
  have "promptOverwrite_answer s =
     (if toLowerCase s = ''a'' \<or> toLowerCase s = ''all'' then RespAll
      else RespBool (toLowerCase s = ''y'' \<or> toLowerCase s = ''yes''))"
    by (simp add: promptOverwrite_answer_def Let_def)
  then show ?thesis
    unfolding all yes using empty by simp
qed

section \<open>The copier, file by file\<close>

subsection \<open>What each call leaves behind\<close>

lemma access_effect:
  "access p w = (r, w') \<Longrightarrow>
     w' = log (Access p (r = Done ())) w \<and> r \<noteq> Pending \<and>
     (r = Done () \<longleftrightarrow> \<not> noaccess w p \<and> fs w p \<noteq> None)"
  by (auto simp: access_def split: if_splits)


lemma mkdir_effect:
  "mkdir d w = (r, w') \<Longrightarrow>
     trace w' = trace w @ [Mkdir d (r = Done ())] \<and> stdin w' = stdin w \<and> r \<noteq> Pending \<and>
     (\<forall>e. r = Thrown e \<longrightarrow> (\<exists>code. e = SysError ''mkdir'' code d))"
  by (auto simp: mkdir_def log_def split: if_splits)

lemma copyFile_effect:
  "copyFile t s p w = (r, w') \<Longrightarrow>
     trace w' = trace w @ [CopyFile s p (r = Done ())] \<and> stdin w' = stdin w \<and> r \<noteq> Pending \<and>
     (\<forall>e. r = Thrown e \<longrightarrow> (\<exists>code q. e = SysError ''copyfile'' code q)) \<and>
     (r = Done () \<longrightarrow> (\<exists>c. lookup t s = Some (File c) \<and> fs w' p = Some (RegFile c)))"
  by (auto simp: copyFile_def written_def log_def split: if_splits option.splits node.splits)

lemma promptOverwrite_effect:
  "promptOverwrite rel w = (r, w') \<Longrightarrow>
     trace w' = trace w @ [Prompt rel (case r of Done x \<Rightarrow> Some x | _ \<Rightarrow> None)] \<and>
     fs w' = fs w \<and> (\<forall>e. r \<noteq> Thrown e)"
  by (auto simp: promptOverwrite_def log_def Let_def split: list.splits)




subsection \<open>The answer No\<close>

text \<open>
  Claim C7. When the destination exists, the flag is off and the prompt returns No, the
  branch makes no further call: the trace ends with the existence check and the prompt, no
  file of the target side changes, and the flag is returned as it came.
\<close>

theorem copyFileEntry_answer_no_skips:
  assumes exist: "access (join dest (relative baseSrc srcPath)) w = (Done (), w1)"
    and flag: "\<not> overwriteAll"
    and no: "promptOverwrite (relative baseSrc srcPath) w1 = (Done (RespBool False), w2)"
  shows "copyFileEntry t srcPath dest baseSrc overwriteAll w = (Done overwriteAll, w2)
       \<and> fs w2 = fs w
       \<and> trace w2 = trace w @ [Access (join dest (relative baseSrc srcPath)) True,
                               Prompt (relative baseSrc srcPath) (Some (RespBool False))]"
proof -
  from exist have w1: "w1 = log (Access (join dest (relative baseSrc srcPath)) True) w"
    by (auto dest: access_effect)
  from promptOverwrite_effect[OF no] w1
  have "fs w2 = fs w"
    and "trace w2 = trace w @ [Access (join dest (relative baseSrc srcPath)) True,
                               Prompt (relative baseSrc srcPath) (Some (RespBool False))]"
    by (simp_all add: log_def)
  moreover from exist flag no
  have "copyFileEntry t srcPath dest baseSrc overwriteAll w = (Done overwriteAll, w2)"
    by (simp add: copyFileEntry_def Let_def await_def try_catch_def)
  ultimately show ?thesis by simp
qed

theorem copyFileEntry_answer_no_skips_witness:
  "fst (access [''dest'', ''a.txt''] sample_world_no) = Done ()
   \<and> fst (promptOverwrite [''a.txt''] (snd (access [''dest'', ''a.txt''] sample_world_no)))
       = Done (RespBool False)
   \<and> fst (copyFileEntry sample_templates [''templates'', ''a.txt''] [''dest''] [''templates'']
            False sample_world_no) = Done False
   \<and> fs (snd (copyFileEntry sample_templates [''templates'', ''a.txt''] [''dest'']
                 [''templates''] False sample_world_no)) [''dest'', ''a.txt'']
       = Some (RegFile ''A0'')
   \<and> trace (snd (copyFileEntry sample_templates [''templates'', ''a.txt''] [''dest'']
                    [''templates''] False sample_world_no))
       = [Access [''dest'', ''a.txt''] True, Prompt [''a.txt''] (Some (RespBool False))]"
proof -
  let ?a = "access [''dest'', ''a.txt''] sample_world_no"
  let ?q = "promptOverwrite [''a.txt''] (snd ?a)"
  have rel: "relative [''templates''] [''templates'', ''a.txt''] = [''a.txt'']" by code_simp
  have p: "join [''dest''] [''a.txt''] = [''dest'', ''a.txt'']" by code_simp
  have a: "fst ?a = Done ()" by code_simp
  have q: "fst ?q = Done (RespBool False)" by code_simp
  have old: "fs sample_world_no [''dest'', ''a.txt''] = Some (RegFile ''A0'')" by code_simp
  have tr: "trace sample_world_no = []" by code_simp
  from a have exist: "access (join [''dest''] (relative [''templates''] [''templates'', ''a.txt'']))
      sample_world_no = (Done (), snd ?a)"
    unfolding rel p by (simp add: prod_eq_iff)
  from q have no: "promptOverwrite (relative [''templates''] [''templates'', ''a.txt'']) (snd ?a)
      = (Done (RespBool False), snd ?q)"
    unfolding rel by (simp add: prod_eq_iff)
  have off: "\<not> False" by simp
  note th = copyFileEntry_answer_no_skips[OF exist off no, of sample_templates, unfolded rel p]
  from th a q old tr show ?thesis by simp
qed

section \<open>The copier, over a whole walk\<close>

subsection \<open>Every walk follows the protocol\<close>

lemma copyFileEntry_protocol:
  assumes "copyFileEntry t srcPath dest baseSrc oa w = (r, w')"
  shows "\<exists>evs. trace w' = trace w @ evs \<and> settled r (run (Idle oa) evs)"
  using assms
  unfolding copyFileEntry_def Let_def await_def try_catch_def
  by (auto simp: run_def log_def split: prod.splits outcome.splits if_splits response.splits
        dest!: access_effect mkdir_effect copyFile_effect promptOverwrite_effect)


lemma run_append: "run s (a @ b) = run (run s a) b"
  by (simp add: run_def)

lemma forEach_protocol:
  assumes body: "\<And>x f w r w'. x \<in> set xs \<Longrightarrow> body x f w = (r, w') \<Longrightarrow>
                   \<exists>evs. trace w' = trace w @ evs \<and> settled r (run (Idle f) evs)"
    and loop: "forEach xs body f w = (r, w')"
  shows "\<exists>evs. trace w' = trace w @ evs \<and> settled r (run (Idle f) evs)"
  using assms
proof (induction xs arbitrary: f w)
  case Nil
  then show ?case by (auto simp: run_def)
next
  case (Cons x xs)
  obtain r1 w1 where first: "body x f w = (r1, w1)" by (cases "body x f w")
  from Cons.prems(1)[OF _ first] obtain evs1
    where evs1: "trace w1 = trace w @ evs1" "settled r1 (run (Idle f) evs1)" by auto
  show ?case
  proof (cases r1)
    case (Done f1)
    with first Cons.prems(2) have rest: "forEach xs body f1 w1 = (r, w')" by simp
    have "\<exists>evs. trace w' = trace w1 @ evs \<and> settled r (run (Idle f1) evs)"
      by (rule Cons.IH[OF _ rest]) (rule Cons.prems(1), auto)
    then obtain evs2 where evs2: "trace w' = trace w1 @ evs2" "settled r (run (Idle f1) evs2)"
      by auto
    from evs1 Done have "run (Idle f) evs1 = Idle f1" by simp
    with evs1 evs2 have "trace w' = trace w @ (evs1 @ evs2) \<and> settled r (run (Idle f) (evs1 @ evs2))"
      by (simp add: run_append)
    then show ?thesis by blast
  next
    case (Thrown e)
    with first Cons.prems(2) have "r = r1" "w' = w1" by auto
    with evs1 show ?thesis by blast
  next
    case Pending
    with first Cons.prems(2) have "r = r1" "w' = w1" by auto
    with evs1 show ?thesis by blast
  qed
qed

lemma copyDirectory_protocol:
  "copyDirectory t src dest baseSrc oa w = (r, w') \<Longrightarrow>
     \<exists>evs. trace w' = trace w @ evs \<and> settled r (run (Idle oa) evs)"
proof (induction t src dest baseSrc oa w arbitrary: r w' rule: copyDirectory.induct)
  case (1 t src dest baseSrc overwriteAll w)
  show ?case
  proof (cases "readdir t src")
    case (Inl e)
    with "1.prems" have "r = Thrown e" "w' = w" by auto
    then show ?thesis by (simp add: run_def)
  next
    case (Inr entries)
    let ?body = "\<lambda>entry overwriteAll w.
               let srcPath = join src [entry] in
               case stat t srcPath of
                 Inl e \<Rightarrow> (Thrown e, w)
               | Inr isDir \<Rightarrow>
                   if isDir then copyDirectory t srcPath dest baseSrc overwriteAll w
                   else copyFileEntry t srcPath dest baseSrc overwriteAll w"
    from Inr "1.prems" have loop: "forEach entries ?body overwriteAll w = (r, w')" by simp
    show ?thesis
    proof (rule forEach_protocol[OF _ loop])
      fix x f wa ra wa'
      assume x: "x \<in> set entries" and b: "?body x f wa = (ra, wa')"
      show "\<exists>evs. trace wa' = trace wa @ evs \<and> settled ra (run (Idle f) evs)"
      proof (cases "stat t (join src [x])")
        case (Inl e)
        with b have "ra = Thrown e" "wa' = wa" by (auto simp: Let_def)
        then show ?thesis by (simp add: run_def)
      next
        case st: (Inr isDir)
        show ?thesis
        proof (cases isDir)
          case True
          with st b have "copyDirectory t (join src [x]) dest baseSrc f wa = (ra, wa')"
            by (simp add: Let_def)
          with "1.IH"[OF Inr x refl st] True show ?thesis by blast
        next
          case False
          with st b have "copyFileEntry t (join src [x]) dest baseSrc f wa = (ra, wa')"
            by (simp add: Let_def)
          then show ?thesis by (rule copyFileEntry_protocol)
        qed
      qed
    qed
  qed
qed


lemma settled_quiescent: "settled r s \<Longrightarrow> quiescent s"
  by (cases r) auto

lemma run_Nil: "run s [] = s"
  by (simp add: run_def)

lemma run_Cons: "run s (e # es) = run (mon s e) es"
  by (simp add: run_def)

lemma run_Violation: "run Violation es = Violation"
  by (induction es) (simp_all add: run_Nil run_Cons)

lemma run_not_Violation: "run s (es @ es') \<noteq> Violation \<Longrightarrow> run s es \<noteq> Violation"
  by (auto simp: run_append run_Violation)

lemma sticky_step:
  "sticky s \<Longrightarrow> mon s e \<noteq> Violation \<Longrightarrow> sticky (mon s e) \<and> (\<forall>rel a. e \<noteq> Prompt rel a)"
  by (cases s; cases e) (auto split: if_splits)

lemma sticky_run:
  "sticky s \<Longrightarrow> run s es \<noteq> Violation \<Longrightarrow>
     sticky (run s es) \<and> (\<forall>rel a. Prompt rel a \<notin> set es)"
proof (induction es arbitrary: s)
  case Nil
  then show ?case by (simp add: run_Nil)
next
  case (Cons e es)
  from Cons.prems(2) have nv: "mon s e \<noteq> Violation"
    by (auto simp: run_Cons run_Violation)
  from sticky_step[OF Cons.prems(1) nv] Cons.IH[of "mon s e"] Cons.prems(2)
  show ?case by (auto simp: run_Cons)
qed

lemma answered_all:
  assumes "quiescent (run s (pre @ Prompt rel (Some RespAll) # post))"
  shows "\<exists>p. run s (pre @ Prompt rel (Some RespAll) # post) = run (MustCopy True p) post"
proof -
  let ?s1 = "run s pre"
  have eq: "run s (pre @ Prompt rel (Some RespAll) # post)
      = run (mon ?s1 (Prompt rel (Some RespAll))) post"
    by (simp add: run_append run_Cons)
  have "mon ?s1 (Prompt rel (Some RespAll)) = Violation
      \<or> (\<exists>p. mon ?s1 (Prompt rel (Some RespAll)) = MustCopy True p)"
    by (cases ?s1) auto
  with assms eq show ?thesis by (auto simp: run_Violation)
qed

lemma must_copy_next:
  assumes "quiescent (run (MustCopy f p) es)"
  shows "\<exists>ok es3. es = Mkdir (dirname p) ok # es3 \<and>
           (ok \<longrightarrow> (\<exists>src ok' es4. es3 = CopyFile src p ok' # es4))"
proof (cases es)
  case Nil
  with assms show ?thesis by (simp add: run_Nil)
next
  case (Cons e es3)
  with assms have q: "quiescent (run (mon (MustCopy f p) e) es3)" by (simp add: run_Cons)
  then have "mon (MustCopy f p) e \<noteq> Violation" by (auto simp: run_Violation)
  then obtain ok where e: "e = Mkdir (dirname p) ok"
    by (cases e) (auto split: if_splits)
  show ?thesis
  proof (cases ok)
    case False
    with e Cons show ?thesis by blast
  next
    case True
    with q e have q3: "quiescent (run (Copying f p) es3)" by simp
    show ?thesis
    proof (cases es3)
      case Nil
      with q3 show ?thesis by (simp add: run_Nil)
    next
      case c3: (Cons e' es4)
      with q3 have "mon (Copying f p) e' \<noteq> Violation" by (auto simp: run_Cons run_Violation)
      then obtain src ok' where "e' = CopyFile src p ok'"
        by (cases e') (auto split: if_splits)
      with c3 e Cons show ?thesis by blast
    qed
  qed
qed

lemma sticky_access_copies:
  assumes "sticky s" and "quiescent (run s (es1 @ Access p True # es2))"
  shows "\<exists>ok es3. es2 = Mkdir (dirname p) ok # es3 \<and>
           (ok \<longrightarrow> (\<exists>src ok' es4. es3 = CopyFile src p ok' # es4))"
proof -
  let ?s1 = "run s es1"
  from assms(2) have nv: "run s (es1 @ Access p True # es2) \<noteq> Violation" by auto
  then have "?s1 \<noteq> Violation" by (rule run_not_Violation)
  with assms(1) have st: "sticky ?s1" using sticky_run by blast
  have eq: "run s (es1 @ Access p True # es2) = run (mon ?s1 (Access p True)) es2"
    by (simp add: run_append run_Cons)
  with nv have "mon ?s1 (Access p True) \<noteq> Violation" by (auto simp: run_Violation)
  with st have "mon ?s1 (Access p True) = MustCopy True p"
    by (cases ?s1) (auto split: if_splits)
  with assms(2) eq have "quiescent (run (MustCopy True p) es2)" by simp
  then show ?thesis by (rule must_copy_next)
qed

subsection \<open>The walk visits the files of the tree\<close>







text \<open>
  The plan leaves no file out: every file of the tree below \<open>src\<close>, reached through names
  that \<open>readdir\<close> lists, is a step of the plan, unless a listing or a \<open>stat\<close> fails.
\<close>

lemma plan_subtree:
  assumes "readdir t src = Inr entries" and "entry \<in> set entries"
    and "stat t (join src [entry]) = Inr True"
  shows "set (plan t (join src [entry])) \<subseteq> set (plan t src)"
proof -
  have "plan t src = concat (map (\<lambda>entry.
                    let srcPath = join src [entry] in
                    case stat t srcPath of
                      Inl e \<Rightarrow> [Fail e]
                    | Inr isDir \<Rightarrow> if isDir then plan t srcPath else [Visit srcPath])
                  entries)"
    by (subst plan.simps) (simp only: assms(1) sum.case)
  moreover from assms(3) have "(let srcPath = join src [entry] in
                    case stat t srcPath of
                      Inl e \<Rightarrow> [Fail e]
                    | Inr isDir \<Rightarrow> if isDir then plan t srcPath else [Visit srcPath])
                 = plan t (join src [entry])"
    by (simp add: Let_def del: plan.simps)
  ultimately show ?thesis using assms(2) by (force simp del: plan.simps)
qed

lemma plan_file:
  assumes "readdir t src = Inr entries" and "entry \<in> set entries"
    and "stat t (join src [entry]) = Inr False"
  shows "Visit (join src [entry]) \<in> set (plan t src)"
proof -
  have "plan t src = concat (map (\<lambda>entry.
                    let srcPath = join src [entry] in
                    case stat t srcPath of
                      Inl e \<Rightarrow> [Fail e]
                    | Inr isDir \<Rightarrow> if isDir then plan t srcPath else [Visit srcPath])
                  entries)"
    by (subst plan.simps) (simp only: assms(1) sum.case)
  moreover from assms(3) have "(let srcPath = join src [entry] in
                    case stat t srcPath of
                      Inl e \<Rightarrow> [Fail e]
                    | Inr isDir \<Rightarrow> if isDir then plan t srcPath else [Visit srcPath])
                 = [Visit (join src [entry])]"
    by (simp add: Let_def del: plan.simps)
  ultimately show ?thesis using assms(2) by (force simp del: plan.simps)
qed

lemma plan_visits_every_file:
  assumes "lookup t (src @ rest) = Some (File c)" and "rest \<noteq> []"
    and "\<forall>n \<in> set rest. valid_name n"
  shows "Visit (src @ rest) \<in> set (plan t src)"
  using assms
proof (induction rest arbitrary: src)
  case Nil
  then show ?case by simp
next
  case (Cons n rest)
  from Cons.prems(1) have "lookup t (src @ [n] @ rest) = Some (File c)" by simp
  then obtain d where d: "lookup t src = Some d" and dn: "lookup d (n # rest) = Some (File c)"
    by (auto simp: lookup_append split: option.splits)
  from dn obtain es m where es: "d = Dir es" and m: "map_of es n = Some m"
    and mr: "lookup m rest = Some (File c)"
    by (cases d) (auto split: option.splits)
  from Cons.prems(3) have vn: "valid_name n" by simp
  then have j: "join src [n] = src @ [n]" by (rule join_valid_name)
  from map_of_SomeD[OF m] have "n \<in> fst ` set es" by force
  with vn d es have rd: "readdir t src = Inr (filter valid_name (map fst es))"
    and mem: "n \<in> set (filter valid_name (map fst es))"
    by (simp_all add: readdir_def)
  from d es m have lm: "lookup t (src @ [n]) = Some m" by (simp add: lookup_append)
  show ?case
  proof (cases rest)
    case Nil
    with mr have "m = File c" by simp
    with lm have "stat t (join src [n]) = Inr False" by (simp add: stat_def j)
    from plan_file[OF rd mem this] Nil show ?thesis by (simp add: j)
  next
    case (Cons k rest')
    with mr obtain es' where "m = Dir es'" by (cases m) auto
    with lm have st: "stat t (join src [n]) = Inr True" by (simp add: stat_def j)
    from Cons.IH[of "src @ [n]"] Cons.prems(1,3) Cons
    have "Visit ((src @ [n]) @ rest) \<in> set (plan t (src @ [n]))" by simp
    with plan_subtree[OF rd mem st] show ?thesis by (auto simp: j)
  qed
qed

subsection \<open>Every file whose destination is not there\<close>



subsection \<open>An existence check that fails\<close>





subsection \<open>Once the answer was All\<close>

text \<open>
  Claim C2. Take any call of \<open>copyDirectory\<close> and any prompt of its trace that was
  answered All. In the rest of the trace there is no prompt; every existence check that
  found its file is followed at once by \<open>mkdir\<close> of the file's directory and, when that
  succeeded, by \<open>copyFile\<close> to the file; and when the call is fulfilled, it is fulfilled
  with \<open>true\<close>.
\<close>

theorem copyDirectory_allRemaining_sticky:
  assumes walk: "copyDirectory t src dest baseSrc overwriteAll w = (r, w')"
    and tr: "trace w' = trace w @ pre @ Prompt rel (Some RespAll) # post"
  shows "(\<forall>rel' a. Prompt rel' a \<notin> set post) \<and>
         (\<forall>es1 p es2. post = es1 @ Access p True # es2 \<longrightarrow>
            (\<exists>ok es3. es2 = Mkdir (dirname p) ok # es3 \<and>
               (ok \<longrightarrow> (\<exists>s ok' es4. es3 = CopyFile s p ok' # es4)))) \<and>
         (\<forall>b. r = Done b \<longrightarrow> b)"
proof -
  from copyDirectory_protocol[OF walk] tr
  have fin: "settled r (run (Idle overwriteAll) (pre @ Prompt rel (Some RespAll) # post))"
    by auto
  then have q: "quiescent (run (Idle overwriteAll) (pre @ Prompt rel (Some RespAll) # post))"
    by (rule settled_quiescent)
  from answered_all[OF q] obtain p0
    where p0: "run (Idle overwriteAll) (pre @ Prompt rel (Some RespAll) # post)
                = run (MustCopy True p0) post" by blast
  have st0: "sticky (MustCopy True p0)" by simp
  from q p0 have q': "quiescent (run (MustCopy True p0) post)" by simp
  then have nv: "run (MustCopy True p0) post \<noteq> Violation" by auto
  from sticky_run[OF st0 nv]
  have st: "sticky (run (MustCopy True p0) post)" and np: "\<forall>rel' a. Prompt rel' a \<notin> set post"
    by auto
  have copies: "\<forall>es1 p es2. post = es1 @ Access p True # es2 \<longrightarrow>
            (\<exists>ok es3. es2 = Mkdir (dirname p) ok # es3 \<and>
               (ok \<longrightarrow> (\<exists>s ok' es4. es3 = CopyFile s p ok' # es4)))"
    using sticky_access_copies[OF st0] q' by blast
  have flag: "\<forall>b. r = Done b \<longrightarrow> b"
    using fin st p0 by auto
  from np copies flag show ?thesis by blast
qed

theorem copyDirectory_allRemaining_sticky_witness:
  "trace (snd (copyDirectory sample_templates [''templates''] [''dest''] [''templates'']
                 False sample_world))
     = [Access [''dest'', ''a.txt''] True, Prompt [''a.txt''] (Some RespAll)]
       @ [Mkdir [''dest''] True,
          CopyFile [''templates'', ''a.txt''] [''dest'', ''a.txt''] True,
          Access [''dest'', ''sub'', ''b.txt''] True,
          Mkdir [''dest'', ''sub''] True,
          CopyFile [''templates'', ''sub'', ''b.txt''] [''dest'', ''sub'', ''b.txt''] True,
          Access [''dest'', ''c.txt''] False,
          Mkdir [''dest''] True,
          CopyFile [''templates'', ''c.txt''] [''dest'', ''c.txt''] True]
   \<and> (\<exists>b. fst (copyDirectory sample_templates [''templates''] [''dest''] [''templates'']
                  False sample_world) = Done b)
   \<and> fst (copyDirectory sample_templates [''templates''] [''dest''] [''templates'']
            False sample_world) = Done True"
proof -
  let ?x = "copyDirectory sample_templates [''templates''] [''dest''] [''templates'']
              False sample_world"
  let ?post = "[Mkdir [''dest''] True,
          CopyFile [''templates'', ''a.txt''] [''dest'', ''a.txt''] True,
          Access [''dest'', ''sub'', ''b.txt''] True,
          Mkdir [''dest'', ''sub''] True,
          CopyFile [''templates'', ''sub'', ''b.txt''] [''dest'', ''sub'', ''b.txt''] True,
          Access [''dest'', ''c.txt''] False,
          Mkdir [''dest''] True,
          CopyFile [''templates'', ''c.txt''] [''dest'', ''c.txt''] True]"
  have tr: "trace (snd ?x)
      = [Access [''dest'', ''a.txt''] True, Prompt [''a.txt''] (Some RespAll)] @ ?post"
    by code_simp
  have ful: "\<exists>b. fst ?x = Done b" by code_simp
  have start: "trace sample_world = []" by code_simp
  have walk: "?x = (fst ?x, snd ?x)" by simp
  from tr start have tr': "trace (snd ?x)
      = trace sample_world @ [Access [''dest'', ''a.txt''] True]
          @ Prompt [''a.txt''] (Some RespAll) # ?post"
    by simp
  note th = copyDirectory_allRemaining_sticky[OF walk tr']
  from th have "\<forall>b. fst ?x = Done b \<longrightarrow> b"
    by (rule conjunct2[OF conjunct2])
  with ful have "fst ?x = Done True" by auto
  with tr ful show ?thesis by blast
qed

section \<open>The package manager detector\<close>

lemma access_visible:
  "access p w =
     (if visible w p then (Done (), log (Access p True) w)
      else (Thrown (SysError ''access'' (if noaccess w p then EACCES else ENOENT) p),
            log (Access p False) w))"
  by (simp add: access_def visible_def)

lemma join_marker:
  "join targetDir [''pnpm-lock.yaml''] = targetDir @ [''pnpm-lock.yaml'']"
  "join targetDir [''yarn.lock''] = targetDir @ [''yarn.lock'']"
  by (simp_all add: join_def norm_step_def)

lemma detectPackageManager_eq:
  "detectPackageManager targetDir w =
     (Done (if visible w (targetDir @ [''pnpm-lock.yaml'']) then ''pnpm''
            else if visible w (targetDir @ [''yarn.lock'']) then ''yarn''
            else ''npm''),
      w\<lparr>trace := trace w @
          (if visible w (targetDir @ [''pnpm-lock.yaml''])
           then [Access (targetDir @ [''pnpm-lock.yaml'']) True]
           else [Access (targetDir @ [''pnpm-lock.yaml'']) False,
                 Access (targetDir @ [''yarn.lock''])
                   (visible w (targetDir @ [''yarn.lock'']))])\<rparr>)"
proof -
  have v: "visible (log e w) p = visible w p" for e p
    by (simp add: visible_def log_def)
  have "detectPackageManager targetDir w =
     (if visible w (targetDir @ [''pnpm-lock.yaml''])
      then (Done ''pnpm'', log (Access (targetDir @ [''pnpm-lock.yaml'']) True) w)
      else if visible w (targetDir @ [''yarn.lock''])
      then (Done ''yarn'', log (Access (targetDir @ [''yarn.lock'']) True)
                             (log (Access (targetDir @ [''pnpm-lock.yaml'']) False) w))
      else (Done ''npm'', log (Access (targetDir @ [''yarn.lock'']) False)
                            (log (Access (targetDir @ [''pnpm-lock.yaml'']) False) w)))"
    unfolding detectPackageManager_def join_marker
    by (simp add: access_visible v)
  then show ?thesis by (simp add: log_def)
qed

text \<open>
  Claim C4, as the code has it. The detector checks \<open>pnpm-lock.yaml\<close> first and once. It
  checks \<open>yarn.lock\<close> only when that first check failed, and then once and second. It
  returns the first kind whose check succeeded, and \<open>npm\<close> exactly when both checks failed.
  A check succeeds when the marker is visible: it is there and may be reached.
\<close>

theorem detectPackageManager_order_and_result:
  "detectPackageManager targetDir w =
     (Done (if visible w (targetDir @ [''pnpm-lock.yaml'']) then ''pnpm''
            else if visible w (targetDir @ [''yarn.lock'']) then ''yarn''
            else ''npm''),
      w\<lparr>trace := trace w @
          (if visible w (targetDir @ [''pnpm-lock.yaml''])
           then [Access (targetDir @ [''pnpm-lock.yaml'']) True]
           else [Access (targetDir @ [''pnpm-lock.yaml'']) False,
                 Access (targetDir @ [''yarn.lock''])
                   (visible w (targetDir @ [''yarn.lock'']))])\<rparr>)
   \<and> access_count (targetDir @ [''pnpm-lock.yaml''])
         (drop (length (trace w)) (trace (snd (detectPackageManager targetDir w)))) = 1
   \<and> access_count (targetDir @ [''yarn.lock''])
         (drop (length (trace w)) (trace (snd (detectPackageManager targetDir w))))
       = (if visible w (targetDir @ [''pnpm-lock.yaml'']) then 0 else 1)
   \<and> (fst (detectPackageManager targetDir w) = Done ''npm'')
       = (\<not> visible w (targetDir @ [''pnpm-lock.yaml''])
          \<and> \<not> visible w (targetDir @ [''yarn.lock'']))"
  unfolding detectPackageManager_eq by simp

text \<open>
  The claim as it was stated fails twice. In a project with both lock files the detector
  returns \<open>pnpm\<close> and never checks \<open>yarn.lock\<close>, so it is not true that each marker is
  checked exactly once per call. And in a project whose \<open>pnpm-lock.yaml\<close> exists but may
  not be reached, the detector returns \<open>npm\<close> although a marker exists.
\<close>

theorem detectPackageManager_order_and_result_counterexample:
  "fst (detectPackageManager [''proj''] sample_project) = Done ''pnpm''
   \<and> access_count [''proj'', ''yarn.lock'']
         (trace (snd (detectPackageManager [''proj''] sample_project))) = 0
   \<and> fs sample_project_denied [''proj'', ''pnpm-lock.yaml''] = Some (RegFile '''')
   \<and> fst (detectPackageManager [''proj''] sample_project_denied) = Done ''npm''"
  by code_simp

section \<open>The dependency installer\<close>

lemma deliver_settled: "s \<noteq> Pending \<Longrightarrow> foldl deliver s evs = s"
  by (induction evs) (cases s; simp)+

lemma deliver_first: "foldl deliver Pending (ev # evs) = deliver Pending ev"
proof -
  have "deliver Pending ev \<noteq> Pending" by (cases ev) auto
  then show ?thesis by (simp add: deliver_settled)
qed

lemma installDependency_known:
  assumes "packageManager \<in> {''npm'', ''yarn'', ''pnpm''}"
  shows "fst (installDependency packageManager packageName w) = foldl deliver Pending (child w)"
proof -
  from assms have "\<exists>cmd args. map_of (commands packageName) packageManager = Some (cmd # args)"
    by (auto simp: commands_def)
  then show ?thesis
    by (auto simp: installDependency_def Let_def log_def)
qed

text \<open>
  Claim C5. A child that was launched emits its exit, with a code; a child that could not
  be launched emits an error (an exit that follows it comes too late to count). For one of
  the three package managers, the promise of \<open>installDependency\<close> is settled by the first
  event of the child. It is fulfilled exactly when that event is the
  exit with code 0. When it is the exit with another code, the promise is rejected with
  the message \<open>Installation failed with code\<close> followed by that code. When it is the error
  of a failed launch, the promise is rejected with that error.
\<close>

theorem installDependency_exit_code:
  assumes "packageManager \<in> {''npm'', ''yarn'', ''pnpm''}"
  shows "(fst (installDependency packageManager packageName w) = Done ())
           = (\<exists>later. child w = ChildExit (Some 0) # later)
       \<and> (\<forall>n later. child w = ChildExit (Some n) # later \<and> n \<noteq> 0 \<longrightarrow>
             fst (installDependency packageManager packageName w)
               = Thrown (Error (''Installation failed with code '' @ show_int n)))
       \<and> (\<forall>e later. child w = ChildError e # later \<longrightarrow>
             fst (installDependency packageManager packageName w) = Thrown e)"
proof -
  note eq = installDependency_known[OF assms, of packageName w]
  have a: "(foldl deliver Pending (child w) = Done ())
             = (\<exists>later. child w = ChildExit (Some 0) # later)"
  proof (cases "child w")
    case Nil
    then show ?thesis by simp
  next
    case (Cons ev later)
    then show ?thesis
      unfolding Cons deliver_first by (cases ev) auto
  qed
  have b: "\<forall>n later. child w = ChildExit (Some n) # later \<and> n \<noteq> 0 \<longrightarrow>
             foldl deliver Pending (child w)
               = Thrown (Error (''Installation failed with code '' @ show_int n))"
  proof (intro allI impI)
    fix n later
    assume h: "child w = ChildExit (Some n) # later \<and> n \<noteq> 0"
    then have "foldl deliver Pending (child w) = deliver Pending (ChildExit (Some n))"
      by (simp only: deliver_first)
    with h show "foldl deliver Pending (child w)
               = Thrown (Error (''Installation failed with code '' @ show_int n))"
      by simp
  qed
  have c: "\<forall>e later. child w = ChildError e # later \<longrightarrow>
             foldl deliver Pending (child w) = Thrown e"
  proof (intro allI impI)
    fix e later
    assume "child w = ChildError e # later"
    then have "foldl deliver Pending (child w) = deliver Pending (ChildError e)"
      by (simp only: deliver_first)
    then show "foldl deliver Pending (child w) = Thrown e" by simp
  qed
  from a b c show ?thesis unfolding eq by blast
qed

theorem installDependency_exit_code_witness:
  "''npm'' \<in> {''npm'', ''yarn'', ''pnpm''}
   \<and> child sample_project = ChildExit (Some 1) # []
   \<and> fst (installDependency ''npm'' ''prettier-plugin-tailwindcss'' sample_project)
       = Thrown (Error ''Installation failed with code 1'')
   \<and> fst (installDependency ''npm'' ''prettier-plugin-tailwindcss'' sample_project) \<noteq> Done ()"
proof -
  let ?x = "installDependency ''npm'' ''prettier-plugin-tailwindcss'' sample_project"
  have pm: "''npm'' \<in> {''npm'', ''yarn'', ''pnpm''}" by simp
  have ch: "child sample_project = ChildExit (Some 1) # []" by code_simp
  have sh: "show_int 1 = ''1''" by code_simp
  note th = installDependency_exit_code[OF pm, of "''prettier-plugin-tailwindcss''" sample_project]
  from th ch have "fst ?x = Thrown (Error (''Installation failed with code '' @ show_int 1))"
    by auto
  with sh have r: "fst ?x = Thrown (Error ''Installation failed with code 1'')" by simp
  then have "fst ?x \<noteq> Done ()" by simp
  with pm ch r show ?thesis by blast
qed

section \<open>The manifest patcher\<close>

subsection \<open>Reading and writing\<close>

lemma readFile_effect:
  "readFile p w = (r, w') \<Longrightarrow> w' = log (ReadFile p (\<exists>c. r = Done c)) w \<and> r \<noteq> Pending"
  by (auto simp: readFile_def split: if_splits option.splits fnode.splits)

lemma writeFile_effect:
  "writeFile p content w = (r, w') \<Longrightarrow>
     r \<noteq> Pending \<and> trace w' = trace w @ [WriteFile p content (r = Done ())] \<and>
     (r = Done () \<longrightarrow> fs w' p = Some (RegFile content))"
  by (auto simp: writeFile_def written_def log_def split: if_splits option.splits)

text \<open>What the \<open>catch\<close> block leaves behind.\<close>

lemma updatePackageJson_read_rejected:
  assumes "readFile (join targetDir [''package.json'']) w = (Thrown e, w1)"
  shows "updatePackageJson JSON_parse targetDir w =
           (Done (), log (ConsoleLog ''No package.json found, skipping script addition.'') w1)"
  using assms by (simp add: updatePackageJson_def Let_def await_def try_catch_def)

lemma updatePackageJson_parse_rejected:
  assumes "readFile (join targetDir [''package.json'']) w = (Done content, w1)"
    and "JSON_parse content = Inl e"
  shows "updatePackageJson JSON_parse targetDir w =
           (Done (), log (ConsoleLog ''No package.json found, skipping script addition.'') w1)"
  using assms by (simp add: updatePackageJson_def Let_def await_def try_catch_def)

lemma updatePackageJson_patch_rejected:
  assumes "readFile (join targetDir [''package.json'']) w = (Done content, w1)"
    and "JSON_parse content = Inr packageJson"
    and "addPrettierScripts packageJson = Inl e"
  shows "updatePackageJson JSON_parse targetDir w =
           (Done (), log (ConsoleLog ''No package.json found, skipping script addition.'') w1)"
  using assms by (simp add: updatePackageJson_def Let_def await_def try_catch_def)

lemma updatePackageJson_written:
  assumes "readFile (join targetDir [''package.json'']) w = (Done content, w1)"
    and "JSON_parse content = Inr packageJson"
    and "addPrettierScripts packageJson = Inr patched"
    and "writeFile (join targetDir [''package.json'']) (JSON_stringify patched @ newline) w1
           = (r, w2)"
  shows "updatePackageJson JSON_parse targetDir w =
           (Done (),
            log (ConsoleLog (if r = Done () then ''Added prettier scripts to package.json.''
                             else ''No package.json found, skipping script addition.'')) w2)"
proof -
  from writeFile_effect[OF assms(4)] have "r \<noteq> Pending" by simp
  with assms show ?thesis
    by (cases r) (simp_all add: updatePackageJson_def Let_def await_def try_catch_def)
qed

subsection \<open>A manifest that cannot be read or parsed\<close>

text \<open>
  Claim C9. When the manifest cannot be read, or is read and does not parse, the patcher
  is fulfilled, and all it did is the read and one line on the console: no write is in the
  trace and no file has changed.
\<close>

theorem updatePackageJson_skips_unreadable:
  assumes "(\<exists>e w1. readFile (join targetDir [''package.json'']) w = (Thrown e, w1))
         \<or> (\<exists>content w1 e. readFile (join targetDir [''package.json'']) w = (Done content, w1)
               \<and> JSON_parse content = Inl e)"
  shows "\<exists>ok. updatePackageJson JSON_parse targetDir w =
           (Done (),
            w\<lparr>trace := trace w
                 @ [ReadFile (join targetDir [''package.json'']) ok,
                    ConsoleLog ''No package.json found, skipping script addition.'']\<rparr>)"
  using assms
proof (elim disjE exE conjE)
  fix e w1
  assume r: "readFile (join targetDir [''package.json'']) w = (Thrown e, w1)"
  from readFile_effect[OF r] have "w1 = log (ReadFile (join targetDir [''package.json'']) False) w"
    by simp
  with updatePackageJson_read_rejected[OF r, of JSON_parse] show ?thesis
    by (auto simp: log_def)
next
  fix content w1 e
  assume r: "readFile (join targetDir [''package.json'']) w = (Done content, w1)"
    and p: "JSON_parse content = Inl e"
  from readFile_effect[OF r] have "w1 = log (ReadFile (join targetDir [''package.json'']) True) w"
    by simp
  with updatePackageJson_parse_rejected[where JSON_parse = JSON_parse, OF r p] show ?thesis
    by (auto simp: log_def)
qed

theorem updatePackageJson_skips_unreadable_witness:
  "fst (readFile [''proj'', ''package.json''] sample_world)
     = Thrown (SysError ''open'' ENOENT [''proj'', ''package.json''])
   \<and> fst (updatePackageJson sample_parse [''proj''] sample_world) = Done ()
   \<and> trace (snd (updatePackageJson sample_parse [''proj''] sample_world))
       = [ReadFile [''proj'', ''package.json''] False,
          ConsoleLog ''No package.json found, skipping script addition.'']"
proof -
  let ?r = "readFile [''proj'', ''package.json''] sample_world"
  let ?x = "updatePackageJson sample_parse [''proj''] sample_world"
  have p: "join [''proj''] [''package.json''] = [''proj'', ''package.json'']" by code_simp
  have rd: "fst ?r = Thrown (SysError ''open'' ENOENT [''proj'', ''package.json''])"
    by code_simp
  have tr: "trace sample_world = []" by code_simp
  from rd have "readFile (join [''proj''] [''package.json'']) sample_world
      = (Thrown (SysError ''open'' ENOENT [''proj'', ''package.json'']), snd ?r)"
    unfolding p by (simp add: prod_eq_iff)
  then have "(\<exists>e w1. readFile (join [''proj''] [''package.json'']) sample_world = (Thrown e, w1))
         \<or> (\<exists>content w1 e. readFile (join [''proj''] [''package.json'']) sample_world
               = (Done content, w1) \<and> sample_parse content = Inl e)"
    by blast
  from updatePackageJson_skips_unreadable[OF this] obtain ok where
    x: "?x = (Done (), sample_world\<lparr>trace := trace sample_world
                 @ [ReadFile (join [''proj''] [''package.json'']) ok,
                    ConsoleLog ''No package.json found, skipping script addition.'']\<rparr>)"
    by blast
  have ok: "trace (snd ?x) = [ReadFile [''proj'', ''package.json''] False,
          ConsoleLog ''No package.json found, skipping script addition.'']"
    by code_simp
  from x have "fst ?x = Done ()" by simp
  with rd ok show ?thesis by blast
qed

subsection \<open>A write that fails\<close>

text \<open>
  Claim C1, as the code has it. The write is inside the \<open>try\<close> block, so a rejected write
  is caught like a rejected read: the patcher is fulfilled, and the last thing it does is
  to print the line \<open>No package.json found, skipping script addition.\<close> on the console. The
  error of the write does not leave the patcher.
\<close>

theorem updatePackageJson_write_failure_caught:
  assumes rd: "readFile (join targetDir [''package.json'']) w = (Done content, w1)"
    and prs: "JSON_parse content = Inr packageJson"
    and pat: "addPrettierScripts packageJson = Inr patched"
    and wrt: "writeFile (join targetDir [''package.json'']) (JSON_stringify patched @ newline) w1
                  = (Thrown e, w2)"
  shows "fst (updatePackageJson JSON_parse targetDir w) = Done ()
       \<and> trace (snd (updatePackageJson JSON_parse targetDir w))
           = trace w
             @ [ReadFile (join targetDir [''package.json'']) True,
                WriteFile (join targetDir [''package.json'']) (JSON_stringify patched @ newline)
                  False,
                ConsoleLog ''No package.json found, skipping script addition.'']"
proof -
  from readFile_effect[OF rd]
  have w1: "w1 = log (ReadFile (join targetDir [''package.json'']) True) w" by simp
  from writeFile_effect[OF wrt]
  have w2: "trace w2 = trace w1 @ [WriteFile (join targetDir [''package.json''])
                                     (JSON_stringify patched @ newline) False]"
    by simp
  from updatePackageJson_written[where JSON_parse = JSON_parse, OF rd prs pat wrt]
  have "updatePackageJson JSON_parse targetDir w
      = (Done (), log (ConsoleLog ''No package.json found, skipping script addition.'') w2)"
    by simp
  with w1 w2 show ?thesis by (simp add: log_def)
qed

theorem updatePackageJson_write_failure_caught_witness:
  "fst (readFile [''proj'', ''package.json''] sample_project_full) = Done ''{}''
   \<and> sample_parse ''{}'' = Inr (JObj [])
   \<and> fst (writeFile [''proj'', ''package.json'']
            (JSON_stringify (JObj [(''scripts'', JObj [(''format'', JStr ''prettier --write .''),
                    (''format:check'', JStr ''prettier --check .'')])]) @ newline)
            (snd (readFile [''proj'', ''package.json''] sample_project_full)))
       = Thrown (SysError ''write'' ENOSPC [''proj'', ''package.json''])
   \<and> fst (updatePackageJson sample_parse [''proj''] sample_project_full) = Done ()"
proof -
  let ?r = "readFile [''proj'', ''package.json''] sample_project_full"
  let ?x = "updatePackageJson sample_parse [''proj''] sample_project_full"
  let ?patched = "JObj [(''scripts'', JObj [(''format'', JStr ''prettier --write .''),
                    (''format:check'', JStr ''prettier --check .'')])]"
  let ?wr = "writeFile [''proj'', ''package.json''] (JSON_stringify ?patched @ newline) (snd ?r)"
  have p: "join [''proj''] [''package.json''] = [''proj'', ''package.json'']" by code_simp
  have rd: "fst ?r = Done ''{}''" by code_simp
  have ps: "sample_parse ''{}'' = Inr (JObj [])" by code_simp
  have pt: "addPrettierScripts (JObj []) = Inr ?patched" by code_simp
  have wr: "fst ?wr = Thrown (SysError ''write'' ENOSPC [''proj'', ''package.json''])"
    by code_simp
  from rd have rd': "readFile (join [''proj''] [''package.json'']) sample_project_full
      = (Done ''{}'', snd ?r)"
    unfolding p by (simp add: prod_eq_iff)
  from wr have wr': "writeFile (join [''proj''] [''package.json''])
      (JSON_stringify ?patched @ newline) (snd ?r)
      = (Thrown (SysError ''write'' ENOSPC [''proj'', ''package.json'']), snd ?wr)"
    unfolding p by (simp add: prod_eq_iff)
  note th = updatePackageJson_write_failure_caught[where JSON_parse = sample_parse,
              OF rd' ps pt wr']
  from th have c4: "fst ?x = Done ()" by (rule conjunct1)
  show ?thesis by (rule conjI[OF rd conjI[OF ps conjI[OF wr c4]]])
qed

text \<open>
  The claim as it was stated fails on a manifest \<open>{}\<close> that may be read and not written:
  the read and the parse succeed, the write is rejected with \<open>EACCES\<close>, and the patcher is
  fulfilled all the same, with the line for a missing manifest as the last thing it did.
\<close>

theorem updatePackageJson_write_failure_caught_counterexample:
  "fst (readFile [''proj'', ''package.json''] sample_project_readonly) = Done ''{}''
   \<and> sample_parse ''{}'' = Inr (JObj [])
   \<and> trace (snd (updatePackageJson sample_parse [''proj''] sample_project_readonly))
       = [ReadFile [''proj'', ''package.json''] True,
          WriteFile [''proj'', ''package.json'']
            (JSON_stringify (JObj [(''scripts'', JObj [(''format'', JStr ''prettier --write .''),
                    (''format:check'', JStr ''prettier --check .'')])]) @ newline) False,
          ConsoleLog ''No package.json found, skipping script addition.'']
   \<and> fst (updatePackageJson sample_parse [''proj''] sample_project_readonly) = Done ()
   \<and> fst (updatePackageJson sample_parse [''proj''] sample_project_readonly)
       \<noteq> Thrown (SysError ''open'' EACCES [''proj'', ''package.json''])"
  by code_simp

subsection \<open>What the patch does to an object\<close>

lemma addPrettierScripts_patchable:
  assumes "patchable (JObj ps)"
  shows "addPrettierScripts (JObj ps) =
           Inr (JObj (AList.update ''scripts''
                  (JObj (AList.update ''format:check'' (JStr ''prettier --check .'')
                          (AList.update ''format'' (JStr ''prettier --write .'')
                             (old_scripts ps))))
                  ps))"
proof (cases "map_of ps ''scripts''")
  case None
  then show ?thesis
    by (simp add: addPrettierScripts_def setNested_def old_scripts_def AList.update_conv')
next
  case (Some v)
  with assms show ?thesis
    by (cases v)
       (simp_all add: addPrettierScripts_def setNested_def old_scripts_def AList.update_conv')
qed

lemma join_with_lines:
  "xs \<noteq> [] \<Longrightarrow> pre @ join_with (sep @ pre) xs = join_with sep (map ((@) pre) xs)"
  by (induction "sep @ pre" xs rule: join_with.induct) simp_all

lemma stringify_object_lines:
  assumes "ps \<noteq> []"
  shows "stringify indent (JObj ps) =
           ''{'' @ newline
           @ join_with ('','' @ newline)
               (map (\<lambda>p. (indent @ ''  '') @ quote (fst p) @ '': ''
                            @ stringify (indent @ ''  '') (snd p)) ps)
           @ newline @ indent @ ''}''"
proof -
  let ?member = "\<lambda>p. quote (fst p) @ '': '' @ stringify (indent @ ''  '') (snd p)"
  from assms have "map ?member ps \<noteq> []" by simp
  from join_with_lines[OF this, of "indent @ ''  ''" "'','' @ newline"]
  have "(indent @ ''  '') @ join_with ('','' @ newline @ (indent @ ''  '')) (map ?member ps)
      = join_with ('','' @ newline) (map (\<lambda>p. (indent @ ''  '') @ ?member p) ps)"
    by (simp add: comp_def)
  with assms show ?thesis by simp
qed

subsection \<open>A manifest that is patched\<close>

text \<open>
  Claim C8, as the code has it. Let the manifest be read and parsed, and let the document
  that \<open>JSON.parse\<close> returned be patchable: an object whose \<open>scripts\<close> is absent, falsy or
  itself an object. Then the patcher is fulfilled after one read, one write and one line
  on the console, and the text it writes (the new content of the file when the write
  succeeds) is \<open>JSON.stringify\<close> of a document \<open>patched\<close>, followed by one newline. What is
  kept is stated between the two documents, the parsed one and \<open>patched\<close>, not between
  the two texts: \<open>patched.scripts\<close> is an object \<open>scripts\<close> with \<open>format\<close> and
  \<open>format:check\<close> set to the two commands; every other top-level field of \<open>patched\<close> is the
  value the parsed document has there; when \<open>scripts\<close> was an object, every other field of
  it is the value it was; the keys of \<open>patched\<close> are the keys of the parsed document in
  the order of the parsed document, with \<open>scripts\<close> last if it is new, and likewise the
  keys of \<open>scripts\<close> with \<open>format\<close> and \<open>format:check\<close>; when \<open>scripts\<close> was absent or falsy,
  the new one has exactly the two scripts. The text is \<open>{\<close>, then every member of
  \<open>patched\<close>, in its order, on a line of its own behind two spaces (the members of
  \<open>scripts\<close> behind four), each value as \<open>stringify\<close> prints it, then \<open>}\<close> and the newline.
  Nothing is said of how the text read relates to the parsed document, nor that
  \<open>stringify\<close> prints a value as the manifest had it: a number that is not finite is
  printed as \<open>null\<close>.
\<close>

theorem updatePackageJson_patches_manifest:
  assumes rd: "readFile (join targetDir [''package.json'']) w = (Done content, w1)"
    and prs: "JSON_parse content = Inr packageJson"
    and shape: "patchable packageJson"
  shows "\<exists>patched scripts ok.
           addPrettierScripts packageJson = Inr patched
         \<and> fst (updatePackageJson JSON_parse targetDir w) = Done ()
         \<and> trace (snd (updatePackageJson JSON_parse targetDir w))
             = trace w
               @ [ReadFile (join targetDir [''package.json'']) True,
                  WriteFile (join targetDir [''package.json''])
                    (JSON_stringify patched @ newline) ok,
                  ConsoleLog (if ok then ''Added prettier scripts to package.json.''
                              else ''No package.json found, skipping script addition.'')]
         \<and> (ok \<longrightarrow> fs (snd (updatePackageJson JSON_parse targetDir w))
                       (join targetDir [''package.json''])
                    = Some (RegFile (JSON_stringify patched @ newline)))
         \<and> object_field patched ''scripts'' = Some scripts
         \<and> object_field scripts ''format'' = Some (JStr ''prettier --write .'')
         \<and> object_field scripts ''format:check'' = Some (JStr ''prettier --check .'')
         \<and> (\<forall>k. k \<noteq> ''scripts'' \<longrightarrow> object_field patched k = object_field packageJson k)
         \<and> (\<forall>old k. object_field packageJson ''scripts'' = Some old \<and> truthy (Some old)
                    \<and> k \<noteq> ''format'' \<and> k \<noteq> ''format:check''
                \<longrightarrow> object_field scripts k = object_field old k)
         \<and> object_keys patched
             = object_keys packageJson
               @ filter (\<lambda>k. k \<notin> set (object_keys packageJson)) [''scripts'']
         \<and> (\<forall>old. object_field packageJson ''scripts'' = Some old \<and> truthy (Some old)
                \<longrightarrow> object_keys scripts
                    = object_keys old
                      @ filter (\<lambda>k. k \<notin> set (object_keys old)) [''format'', ''format:check''])
         \<and> (\<not> truthy (object_field packageJson ''scripts'')
                \<longrightarrow> scripts = JObj [(''format'', JStr ''prettier --write .''),
                                   (''format:check'', JStr ''prettier --check .'')])
         \<and> JSON_stringify patched @ newline
             = ''{'' @ newline
               @ join_with ('','' @ newline)
                   (map (\<lambda>p. ''  '' @ quote (fst p) @ '': '' @ stringify ''  '' (snd p))
                      (case patched of JObj ps \<Rightarrow> ps | _ \<Rightarrow> []))
               @ newline @ ''}'' @ newline
         \<and> stringify ''  '' scripts
             = ''{'' @ newline
               @ join_with ('','' @ newline)
                   (map (\<lambda>p. ''    '' @ quote (fst p) @ '': '' @ stringify ''    '' (snd p))
                      (case scripts of JObj ss \<Rightarrow> ss | _ \<Rightarrow> []))
               @ newline @ ''  }''"
proof -
  let ?p = "join targetDir [''package.json'']"
  let ?x = "updatePackageJson JSON_parse targetDir w"
  from shape obtain ps where pj: "packageJson = JObj ps" by (cases packageJson) auto
  define ss' where "ss' = AList.update ''format:check'' (JStr ''prettier --check .'')
                            (AList.update ''format'' (JStr ''prettier --write .'')
                               (old_scripts ps))"
  define ps' where "ps' = AList.update ''scripts'' (JObj ss') ps"
  from shape pj have pat: "addPrettierScripts packageJson = Inr (JObj ps')"
    by (simp add: addPrettierScripts_patchable ps'_def ss'_def)
  obtain r w2 where wrt: "writeFile ?p (JSON_stringify (JObj ps') @ newline) w1 = (r, w2)"
    by (cases "writeFile ?p (JSON_stringify (JObj ps') @ newline) w1")
  note we = writeFile_effect[OF wrt]
  from readFile_effect[OF rd] have w1: "w1 = log (ReadFile ?p True) w" by simp
  from updatePackageJson_written[where JSON_parse = JSON_parse, OF rd prs pat wrt]
  have x: "?x = (Done (),
            log (ConsoleLog (if r = Done () then ''Added prettier scripts to package.json.''
                             else ''No package.json found, skipping script addition.'')) w2)" .
  have c2: "fst ?x = Done ()" using x by simp
  have c3: "trace (snd ?x) = trace w
               @ [ReadFile ?p True,
                  WriteFile ?p (JSON_stringify (JObj ps') @ newline) (r = Done ()),
                  ConsoleLog (if r = Done () then ''Added prettier scripts to package.json.''
                              else ''No package.json found, skipping script addition.'')]"
    using x we w1 by (simp add: log_def)
  have c4: "r = Done () \<longrightarrow> fs (snd ?x) ?p = Some (RegFile (JSON_stringify (JObj ps') @ newline))"
    using x we by (simp add: log_def)
  have c5: "object_field (JObj ps') ''scripts'' = Some (JObj ss')"
    by (simp add: ps'_def AList.update_conv')
  have c6: "object_field (JObj ss') ''format'' = Some (JStr ''prettier --write .'')"
    by (simp add: ss'_def AList.update_conv')
  have c7: "object_field (JObj ss') ''format:check'' = Some (JStr ''prettier --check .'')"
    by (simp add: ss'_def AList.update_conv')
  have c8: "\<forall>k. k \<noteq> ''scripts'' \<longrightarrow> object_field (JObj ps') k = object_field packageJson k"
    by (simp add: ps'_def pj AList.update_conv')
  have old: "old_scripts ps = ss"
    if "object_field packageJson ''scripts'' = Some old" "truthy (Some old)"
       "old = JObj ss" for old ss
    using that pj by (simp add: old_scripts_def)
  have isobj: "\<exists>ss. old = JObj ss"
    if "object_field packageJson ''scripts'' = Some old" "truthy (Some old)" for old
    using that shape pj by (cases old) auto
  have c9: "\<forall>old k. object_field packageJson ''scripts'' = Some old \<and> truthy (Some old)
                    \<and> k \<noteq> ''format'' \<and> k \<noteq> ''format:check''
                \<longrightarrow> object_field (JObj ss') k = object_field old k"
  proof (intro allI impI, elim conjE)
    fix old k
    assume h: "object_field packageJson ''scripts'' = Some old" "truthy (Some old)"
      and k: "k \<noteq> ''format''" "k \<noteq> ''format:check''"
    from isobj[OF h] obtain ss where ss: "old = JObj ss" ..
    from old[OF h ss] k ss show "object_field (JObj ss') k = object_field old k"
      by (simp add: ss'_def AList.update_conv')
  qed
  have c10: "object_keys (JObj ps')
             = object_keys packageJson
               @ filter (\<lambda>k. k \<notin> set (object_keys packageJson)) [''scripts'']"
    by (simp add: ps'_def pj AList.update_keys)
  have c11: "\<forall>old. object_field packageJson ''scripts'' = Some old \<and> truthy (Some old)
                \<longrightarrow> object_keys (JObj ss')
                    = object_keys old
                      @ filter (\<lambda>k. k \<notin> set (object_keys old)) [''format'', ''format:check'']"
  proof (intro allI impI, elim conjE)
    fix old
    assume h: "object_field packageJson ''scripts'' = Some old" "truthy (Some old)"
    from isobj[OF h] obtain ss where ss: "old = JObj ss" ..
    from old[OF h ss] ss show "object_keys (JObj ss')
                    = object_keys old
                      @ filter (\<lambda>k. k \<notin> set (object_keys old)) [''format'', ''format:check'']"
      by (simp add: ss'_def AList.update_keys)
  qed
  have c12: "\<not> truthy (object_field packageJson ''scripts'')
                \<longrightarrow> JObj ss' = JObj [(''format'', JStr ''prettier --write .''),
                                   (''format:check'', JStr ''prettier --check .'')]"
  proof
    assume "\<not> truthy (object_field packageJson ''scripts'')"
    with pj have "old_scripts ps = []"
      by (auto simp: old_scripts_def split: option.splits json.splits)
    then show "JObj ss' = JObj [(''format'', JStr ''prettier --write .''),
                                   (''format:check'', JStr ''prettier --check .'')]"
      by (simp add: ss'_def)
  qed
  have ne: "ps' \<noteq> []" "ss' \<noteq> []" by (simp_all add: ps'_def ss'_def)
  have c13: "JSON_stringify (JObj ps') @ newline
             = ''{'' @ newline
               @ join_with ('','' @ newline)
                   (map (\<lambda>p. ''  '' @ quote (fst p) @ '': '' @ stringify ''  '' (snd p))
                      (case JObj ps' of JObj ps \<Rightarrow> ps | _ \<Rightarrow> []))
               @ newline @ ''}'' @ newline"
    unfolding JSON_stringify_def stringify_object_lines[OF ne(1)] by simp
  have c14: "stringify ''  '' (JObj ss')
             = ''{'' @ newline
               @ join_with ('','' @ newline)
                   (map (\<lambda>p. ''    '' @ quote (fst p) @ '': '' @ stringify ''    '' (snd p))
                      (case JObj ss' of JObj ss \<Rightarrow> ss | _ \<Rightarrow> []))
               @ newline @ ''  }''"
    unfolding stringify_object_lines[OF ne(2)] by simp
  from pat c2 c3 c4 c5 c6 c7 c8 c9 c10 c11 c12 c13 c14 show ?thesis
    by (intro exI[of _ "JObj ps'"] exI[of _ "JObj ss'"] exI[of _ "r = Done ()"] conjI)
qed

theorem updatePackageJson_patches_manifest_witness:
  "fst (readFile [''proj'', ''package.json''] sample_project_manifest) = Done sample_manifest
   \<and> sample_parse sample_manifest
       = Inr (JObj [(''name'', JStr ''p''), (''scripts'', JObj [(''test'', JStr ''x'')])])
   \<and> patchable (JObj [(''name'', JStr ''p''), (''scripts'', JObj [(''test'', JStr ''x'')])])
   \<and> (\<exists>patched. addPrettierScripts
                     (JObj [(''name'', JStr ''p''), (''scripts'', JObj [(''test'', JStr ''x'')])])
                   = Inr patched)
   \<and> fst (updatePackageJson sample_parse [''proj''] sample_project_manifest) = Done ()
   \<and> fs (snd (updatePackageJson sample_parse [''proj''] sample_project_manifest))
         [''proj'', ''package.json'']
       = Some (RegFile
           (''{'' @ newline
            @ ''  '' @ dq @ ''name'' @ dq @ '': '' @ dq @ ''p'' @ dq @ '','' @ newline
            @ ''  '' @ dq @ ''scripts'' @ dq @ '': {'' @ newline
            @ ''    '' @ dq @ ''test'' @ dq @ '': '' @ dq @ ''x'' @ dq @ '','' @ newline
            @ ''    '' @ dq @ ''format'' @ dq @ '': '' @ dq @ ''prettier --write .'' @ dq
            @ '','' @ newline
            @ ''    '' @ dq @ ''format:check'' @ dq @ '': '' @ dq @ ''prettier --check .'' @ dq
            @ newline
            @ ''  }'' @ newline
            @ ''}'' @ newline))"
proof -
  let ?doc = "JObj [(''name'', JStr ''p''), (''scripts'', JObj [(''test'', JStr ''x'')])]"
  let ?r = "readFile [''proj'', ''package.json''] sample_project_manifest"
  let ?x = "updatePackageJson sample_parse [''proj''] sample_project_manifest"
  have p: "join [''proj''] [''package.json''] = [''proj'', ''package.json'']" by code_simp
  have c1: "fst ?r = Done sample_manifest" by code_simp
  have c2: "sample_parse sample_manifest = Inr ?doc" by code_simp
  have c3: "patchable ?doc" by code_simp
  have c6: "fs (snd ?x) [''proj'', ''package.json'']
       = Some (RegFile
           (''{'' @ newline
            @ ''  '' @ dq @ ''name'' @ dq @ '': '' @ dq @ ''p'' @ dq @ '','' @ newline
            @ ''  '' @ dq @ ''scripts'' @ dq @ '': {'' @ newline
            @ ''    '' @ dq @ ''test'' @ dq @ '': '' @ dq @ ''x'' @ dq @ '','' @ newline
            @ ''    '' @ dq @ ''format'' @ dq @ '': '' @ dq @ ''prettier --write .'' @ dq
            @ '','' @ newline
            @ ''    '' @ dq @ ''format:check'' @ dq @ '': '' @ dq @ ''prettier --check .'' @ dq
            @ newline
            @ ''  }'' @ newline
            @ ''}'' @ newline))"
    by code_simp
  from c1 have rd: "readFile (join [''proj''] [''package.json'']) sample_project_manifest
      = (Done sample_manifest, snd ?r)"
    unfolding p by (simp add: prod_eq_iff)
  note th = updatePackageJson_patches_manifest[where JSON_parse = sample_parse, OF rd c2 c3]
  from th have c4: "\<exists>patched. addPrettierScripts ?doc = Inr patched" by blast
  from th have c5: "fst ?x = Done ()" by blast
  show ?thesis by (rule conjI[OF c1 conjI[OF c2 conjI[OF c3 conjI[OF c4 conjI[OF c5 c6]]]]])
qed

text \<open>
  The claim as it was stated, for every manifest that is read and parsed, fails on the
  manifest \<open>null\<close> and on a manifest whose \<open>scripts\<close> is the string \<open>build\<close>. Both are read
  and parsed; reading \<open>scripts\<close> of \<open>null\<close> throws, and so does storing \<open>format\<close> on a
  string; the \<open>catch\<close> block swallows the error, nothing is written and the file is what
  it was. It fails between the two texts as well, on manifests that are patched: the
  one member \<open>x\<close> of a manifest, written \<open>1e400\<close> there, is parsed as \<open>Infinity\<close> and
  written as \<open>null\<close>; and the members \<open>b\<close> and \<open>2\<close> of a manifest, in this order there,
  are enumerated, and written, as \<open>2\<close> and \<open>b\<close>.
\<close>

theorem updatePackageJson_patches_manifest_counterexample:
  "fst (readFile [''proj'', ''package.json''] sample_project_null) = Done ''null''
   \<and> sample_parse ''null'' = Inr JNull
   \<and> trace (snd (updatePackageJson sample_parse [''proj''] sample_project_null))
       = [ReadFile [''proj'', ''package.json''] True,
          ConsoleLog ''No package.json found, skipping script addition.'']
   \<and> fs (snd (updatePackageJson sample_parse [''proj''] sample_project_null))
         [''proj'', ''package.json''] = Some (RegFile ''null'')
   \<and> fst (readFile [''proj'', ''package.json''] sample_project_string_scripts)
       = Done sample_manifest_string_scripts
   \<and> sample_parse sample_manifest_string_scripts = Inr (JObj [(''scripts'', JStr ''build'')])
   \<and> addPrettierScripts (JObj [(''scripts'', JStr ''build'')]) = Inl TypeError
   \<and> trace (snd (updatePackageJson sample_parse [''proj''] sample_project_string_scripts))
       = [ReadFile [''proj'', ''package.json''] True,
          ConsoleLog ''No package.json found, skipping script addition.'']
   \<and> fs (snd (updatePackageJson sample_parse [''proj''] sample_project_string_scripts))
         [''proj'', ''package.json''] = Some (RegFile sample_manifest_string_scripts)
   \<and> fst (readFile [''proj'', ''package.json''] sample_project_overflow)
       = Done sample_manifest_overflow
   \<and> sample_parse sample_manifest_overflow
       = Inr (JObj [(''x'', JNum ''Infinity'')])
   \<and> patchable (JObj [(''x'', JNum ''Infinity'')])
   \<and> fs (snd (updatePackageJson sample_parse [''proj''] sample_project_overflow))
         [''proj'', ''package.json'']
       = Some (RegFile
           (''{'' @ newline
            @ ''  '' @ dq @ ''x'' @ dq @ '': null,'' @ newline
            @ ''  '' @ dq @ ''scripts'' @ dq @ '': {'' @ newline
            @ ''    '' @ dq @ ''format'' @ dq @ '': '' @ dq @ ''prettier --write .'' @ dq
            @ '','' @ newline
            @ ''    '' @ dq @ ''format:check'' @ dq @ '': '' @ dq @ ''prettier --check .'' @ dq
            @ newline
            @ ''  }'' @ newline
            @ ''}'' @ newline))
   \<and> fst (readFile [''proj'', ''package.json''] sample_project_index_key)
       = Done sample_manifest_index_key
   \<and> sample_parse sample_manifest_index_key
       = Inr (JObj [(''2'', JNum ''2''), (''b'', JNum ''1'')])
   \<and> patchable (JObj [(''2'', JNum ''2''), (''b'', JNum ''1'')])
   \<and> fs (snd (updatePackageJson sample_parse [''proj''] sample_project_index_key))
         [''proj'', ''package.json'']
       = Some (RegFile
           (''{'' @ newline
            @ ''  '' @ dq @ ''2'' @ dq @ '': 2,'' @ newline
            @ ''  '' @ dq @ ''b'' @ dq @ '': 1,'' @ newline
            @ ''  '' @ dq @ ''scripts'' @ dq @ '': {'' @ newline
            @ ''    '' @ dq @ ''format'' @ dq @ '': '' @ dq @ ''prettier --write .'' @ dq
            @ '','' @ newline
            @ ''    '' @ dq @ ''format:check'' @ dq @ '': '' @ dq @ ''prettier --check .'' @ dq
            @ newline
            @ ''  }'' @ newline
            @ ''}'' @ newline))"
  by code_simp

end
